theory Spec2Isabelle
  imports Complex_Main
begin

section \<open>Errors and the process grid\<close>

text \<open>
  The routines report failures by throwing \<open>std::logic_error\<close> (debug-build conformance
  checks, self-construction) or through \<open>RuntimeError\<close> (non-convergence).  Both carry the
  message text of the source.
\<close>

datatype error = logic_error string | runtime_error string

text \<open>
  A process grid of \<open>gHeight \<times> gWidth\<close> processes.  Grids are compared by identity in the
  source (\<open>L.GetGrid() != X.GetGrid()\<close>), so the model carries a handle next to the shape.
\<close>

record Grid =
  gId :: nat
  gHeight :: nat
  gWidth :: nat

section \<open>Loops with fuel\<close>

text \<open>
  The panel sweeps are \<open>while\<close> and \<open>for\<close> loops whose progress depends on the
  algorithmic block size, a process-wide setting that the routines do not validate.  A
  sweep is therefore run with fuel: \<open>None\<close> means the loop did not exit within the fuel.
\<close>

fun while_fuel :: "nat \<Rightarrow> ('s \<Rightarrow> bool) \<Rightarrow> ('s \<Rightarrow> 's) \<Rightarrow> 's \<Rightarrow> 's option" where
  "while_fuel 0 c b s = None"
| "while_fuel (Suc f) c b s = (if c s then while_fuel f c b (b s) else Some s)"

section \<open>The panel sweep of Trr2kNNTT\<close>

text \<open>
  \<open>for( Int k=0; k<r; k+=bsize ) { const Int nb = Min(bsize,r-k); const Range<Int> ind1( k, k+nb ); ... }\<close>

  The loop state that matters for the sweep is the counter \<open>k\<close>; every iteration carves
  the index range \<open>ind1 = [k, k+nb)\<close> and hands the panels cut along it to the
  redistributions and to \<open>LocalTrr2k\<close>, none of which touches \<open>k\<close>, \<open>r\<close> or \<open>bsize\<close>.
  The model records the ranges in the order the iterations produce them.

  \<open>Int\<close> is a signed integer of fixed width.  Its declaration is not part of the sources
  at hand, so the width \<open>w\<close> in bits is a parameter.  A value of type \<open>Int\<close> is an \<open>int\<close>
  within \<open>[-2^(w-1), 2^(w-1))\<close>, and the results of \<open>r-k\<close>, \<open>k+nb\<close> and \<open>k+=bsize\<close> wrap
  around in two's complement, as they do on the machines the library runs on.
\<close>

definition Int_wrap :: "nat \<Rightarrow> int \<Rightarrow> int" where
  "Int_wrap w x = (x + 2 ^ (w - 1)) mod 2 ^ w - 2 ^ (w - 1)"

record Trr2k_state =
  k_of :: int
  panels :: "(int \<times> int) list"

definition Trr2kNNTT_cond :: "int \<Rightarrow> Trr2k_state \<Rightarrow> bool" where
  "Trr2kNNTT_cond r s = (k_of s < r)"

definition Trr2kNNTT_body :: "nat \<Rightarrow> int \<Rightarrow> int \<Rightarrow> Trr2k_state \<Rightarrow> Trr2k_state" where
  "Trr2kNNTT_body w bsize r s =
     (let k = k_of s;
          nb = min bsize (Int_wrap w (r - k));
          ind1 = (k, Int_wrap w (k + nb))
      in \<lparr> k_of = Int_wrap w (k + bsize), panels = panels s @ [ind1] \<rparr>)"

definition Trr2kNNTT_sweep :: "nat \<Rightarrow> nat \<Rightarrow> int \<Rightarrow> int \<Rightarrow> (int \<times> int) list option" where
  "Trr2kNNTT_sweep w fuel bsize r =
     map_option panels
       (while_fuel fuel (Trr2kNNTT_cond r) (Trr2kNNTT_body w bsize r) \<lparr> k_of = 0, panels = [] \<rparr>)"

text \<open>
  \<open>tiles k bs r\<close>: the ranges \<open>bs\<close>, in order, are non-empty, each starts where the one
  before ended, the first starts at \<open>k\<close> and the last ends at \<open>r\<close>.
\<close>

fun tiles :: "int \<Rightarrow> (int \<times> int) list \<Rightarrow> int \<Rightarrow> bool" where
  "tiles k [] r = (k = r)"
| "tiles k ((a, b) # bs) r = (a = k \<and> a < b \<and> tiles b bs r)"

text \<open>
  The invariant of the sweep: the ranges cut so far tile \<open>[0, min k r)\<close>, each of the
  size the source computes.
\<close>

definition Trr2k_inv :: "int \<Rightarrow> int \<Rightarrow> Trr2k_state \<Rightarrow> bool" where
  "Trr2k_inv bsize r s =
     (tiles 0 (panels s) (min (k_of s) r) \<and>
      (\<forall>(a, b) \<in> set (panels s). b - a = min bsize (r - a)))"

section \<open>Sequential matrices and the local kernels\<close>

text \<open>
  \<open>Matrix<T>\<close>: the extents and the entries, read by \<open>Get(i,j)\<close>.  Entries outside the
  extents are never read by the routines below; the kernels leave them as they are.
\<close>

record 'a Matrix =
  Height :: nat
  Width :: nat
  Entry :: "nat \<Rightarrow> nat \<Rightarrow> 'a"

text \<open>
  The panel routines use their \<open>[MC,MR]\<close> operands through the interface of
  \<open>AbstractDistMatrix<T>\<close>: the global extents, the grid, the global entries, views and
  redistributing assignments.  A redistribution moves entries between processes and keeps
  the global entries (section Storage below), so at this level an operand is its grid
  together with its global contents, and a redistribution shows up in the communication
  log only.
\<close>

record 'a AbstractDistMatrix = "'a Matrix" +
  GetGrid :: Grid

datatype Diagonal = NonUnit | Unit

datatype Orientation = Normal | Transpose | ConjugateTranspose

text \<open>
  Modelled from the spec: views are created by the partition helpers, which are not part
  of the sources at hand.  By section 3 of the specification a view owns no storage and
  aliases a rectangle of its parent.  Reading through the view is \<open>View\<close>; an assignment
  to the view writes the rectangle of the parent, which is \<open>Assign\<close>.
\<close>

definition View :: "('a, 'b) Matrix_scheme \<Rightarrow> nat \<Rightarrow> nat \<Rightarrow> nat \<Rightarrow> nat \<Rightarrow> 'a Matrix" where
  "View A i j h w = \<lparr> Height = h, Width = w, Entry = (\<lambda>a b. Entry A (i + a) (j + b)) \<rparr>"

definition Assign :: "('a, 'b) Matrix_scheme \<Rightarrow> nat \<Rightarrow> nat \<Rightarrow> 'a Matrix \<Rightarrow> ('a, 'b) Matrix_scheme" where
  "Assign A i j B =
     A\<lparr> Entry := (\<lambda>a b. if i \<le> a \<and> a < i + Height B \<and> j \<le> b \<and> b < j + Width B
                          then Entry B (a - i) (b - j) else Entry A a b) \<rparr>"

text \<open>
  Modelled from the spec: \<open>blas::Scal( alpha, X )\<close> is not part of the sources at hand;
  it multiplies every entry of \<open>X\<close> by \<open>alpha\<close>.
\<close>

definition Scal :: "'a::times \<Rightarrow> ('a, 'b) Matrix_scheme \<Rightarrow> ('a, 'b) Matrix_scheme" where
  "Scal alpha X =
     X\<lparr> Entry := (\<lambda>i j. if i < Height X \<and> j < Width X then alpha * Entry X i j
                          else Entry X i j) \<rparr>"

text \<open>
  Modelled from the spec: the sequential kernel \<open>LocalTrsm( Left, Lower, Normal, diagonal,
  alpha, L, X )\<close> is not part of the sources at hand; it is the trusted sequential
  triangular solve \<open>X := alpha tril(L)^-1 X\<close> (\<open>trilu(L)\<close> under \<open>Unit\<close>, which reads the
  diagonal as ones), that is forward substitution, row after row:
  \<open>y\<^sub>i = (b\<^sub>i - \<Sum>\<^sub>m\<^sub><\<^sub>i L\<^sub>i\<^sub>m y\<^sub>m) / L\<^sub>i\<^sub>i\<close>.
\<close>

function forward_subst ::
  "Diagonal \<Rightarrow> (nat \<Rightarrow> nat \<Rightarrow> 'a::field) \<Rightarrow> (nat \<Rightarrow> nat \<Rightarrow> 'a) \<Rightarrow> nat \<Rightarrow> nat \<Rightarrow> 'a" where
  "forward_subst d L B i j =
     (B i j - (\<Sum>m<i. L i m * forward_subst d L B m j)) / (if d = Unit then 1 else L i i)"
  by pat_completeness auto
termination
  by (relation "measure (\<lambda>(d, L, B, i, j). i)") auto

declare forward_subst.simps [simp del]

definition LocalTrsm ::
  "Diagonal \<Rightarrow> 'a::field \<Rightarrow> ('a, 'c) Matrix_scheme \<Rightarrow> ('a, 'b) Matrix_scheme \<Rightarrow> ('a, 'b) Matrix_scheme" where
  "LocalTrsm diagonal alpha L X =
     X\<lparr> Entry := (\<lambda>i j. if i < Height X \<and> j < Width X
                          then forward_subst diagonal (Entry L) (\<lambda>a b. alpha * Entry X a b) i j
                          else Entry X i j) \<rparr>"

text \<open>
  Modelled from the spec: the sequential kernel \<open>LocalGemm( Normal, Normal, alpha, A, B,
  beta, C )\<close>, absent from the sources at hand, is the matrix product update
  \<open>C := alpha A B + beta C\<close>.
\<close>

definition LocalGemm ::
  "'a::comm_ring_1 \<Rightarrow> ('a, 'c) Matrix_scheme \<Rightarrow> ('a, 'd) Matrix_scheme \<Rightarrow> 'a \<Rightarrow>
     ('a, 'b) Matrix_scheme \<Rightarrow> ('a, 'b) Matrix_scheme" where
  "LocalGemm alpha A B beta C =
     C\<lparr> Entry := (\<lambda>i j. if i < Height C \<and> j < Width C
                          then alpha * (\<Sum>m<Width A. Entry A i m * Entry B m j) + beta * Entry C i j
                          else Entry C i j) \<rparr>"

text \<open>
  The operand \<open>op(L)\<close> of a kernel called with an orientation: \<open>L\<close>, its transpose, or its
  conjugate transpose.  The conjugation of the scalar type is the parameter \<open>conjugate\<close> (the
  identity for real scalars).
\<close>

definition Oriented :: "('a \<Rightarrow> 'a) \<Rightarrow> Orientation \<Rightarrow> ('a, 'b) Matrix_scheme \<Rightarrow> 'a Matrix" where
  "Oriented conjugate orientation A =
     (case orientation of
        Normal \<Rightarrow> \<lparr> Height = Height A, Width = Width A, Entry = Entry A \<rparr>
      | Transpose \<Rightarrow> \<lparr> Height = Width A, Width = Height A, Entry = (\<lambda>i j. Entry A j i) \<rparr>
      | ConjugateTranspose \<Rightarrow>
          \<lparr> Height = Width A, Width = Height A, Entry = (\<lambda>i j. conjugate (Entry A j i)) \<rparr>)"

text \<open>
  Modelled from the spec: the sequential kernel \<open>LocalTrmm( Right, Lower, orientation,
  diagonal, alpha, L, X )\<close>, absent from the sources at hand, is the triangular multiply
  \<open>X := alpha X op(tril(L))\<close> (\<open>trilu(L)\<close> under \<open>Unit\<close>).
\<close>

definition tril :: "Diagonal \<Rightarrow> ('a::comm_ring_1, 'b) Matrix_scheme \<Rightarrow> 'a Matrix" where
  "tril diagonal L =
     \<lparr> Height = Height L, Width = Width L,
       Entry = (\<lambda>i j. if j < i then Entry L i j
                       else if j = i then (if diagonal = Unit then 1 else Entry L i i)
                       else 0) \<rparr>"

definition LocalTrmm ::
  "('a \<Rightarrow> 'a) \<Rightarrow> Orientation \<Rightarrow> Diagonal \<Rightarrow> 'a::comm_ring_1 \<Rightarrow> ('a, 'c) Matrix_scheme \<Rightarrow>
     ('a, 'b) Matrix_scheme \<Rightarrow> ('a, 'b) Matrix_scheme" where
  "LocalTrmm conjugate orientation diagonal alpha L X =
     X\<lparr> Entry := (\<lambda>i j. if i < Height X \<and> j < Width X
                          then alpha * (\<Sum>m<Width X. Entry X i m
                                          * Entry (Oriented conjugate orientation (tril diagonal L)) m j)
                          else Entry X i j) \<rparr>"

section \<open>The blocked triangular routines\<close>

text \<open>
  The distribution tags of the temporaries.  The diagonal distribution \<open>MD\<close> is not among
  the kinds the specification describes and is left out.
\<close>

datatype Distribution = MC | MR | VC | VR | Star

text \<open>
  Communication is recorded as a log of collective operations: a redistributing assignment
  (target scheme, source scheme, global extents of the matrix moved) or a
  \<open>SumScatterUpdate\<close>.
\<close>

datatype event =
    Redistribution "Distribution \<times> Distribution" "Distribution \<times> Distribution" nat nat
  | SumScatterUpdate "Distribution \<times> Distribution" "Distribution \<times> Distribution" nat nat

text \<open>
  The state of a sweep: the position of the partition boundary (\<open>XT.Height()\<close> going
  down, \<open>XL.Width()\<close> going left; \<open>L\<close> is partitioned along its diagonal at the same
  position), the operand \<open>X\<close> that the views \<open>X0, X1, X2\<close> alias, and the log.
\<close>

record 'a sweep_state =
  boundary :: nat
  X_of :: "'a AbstractDistMatrix"
  comm_log :: "event list"

text \<open>What a call did: the exception it threw, if any, and the state it left.\<close>

record 'a run =
  thrown :: "error option"
  final :: "'a sweep_state"

text \<open>Decimal output of an extent, as \<open>ostringstream\<close> prints it.\<close>

function show_nat :: "nat \<Rightarrow> string" where
  "show_nat n = (if n < 10 then [char_of (48 + n)]
                 else show_nat (n div 10) @ [char_of (48 + n mod 10)])"
  by pat_completeness auto
termination
  by (relation "measure id") auto

declare show_nat.simps [simp del]

definition endl :: string where
  "endl = [char_of (10::nat)]"

definition Nonconformal_msg :: "string \<Rightarrow> ('a, 'b) Matrix_scheme \<Rightarrow> ('a, 'c) Matrix_scheme \<Rightarrow> string" where
  "Nonconformal_msg routine L X =
     ''Nonconformal '' @ routine @ '': '' @ endl
     @ ''  L ~ '' @ show_nat (Height L) @ '' x '' @ show_nat (Width L) @ endl
     @ ''  X ~ '' @ show_nat (Height X) @ '' x '' @ show_nat (Width X) @ endl"

subsection \<open>TrsmLLN\<close>

text \<open>
  The checks of lines 33-45, compiled only when \<open>RELEASE\<close> is not defined.
\<close>

definition TrsmLLN_check :: "bool \<Rightarrow> 'a AbstractDistMatrix \<Rightarrow> 'a AbstractDistMatrix \<Rightarrow> error option" where
  "TrsmLLN_check release L X =
     (if release then None
      else if GetGrid L \<noteq> GetGrid X
        then Some (logic_error ''L and X must be distributed over the same grid.'')
      else if Height L \<noteq> Width L \<or> Width L \<noteq> Height X
        then Some (logic_error (Nonconformal_msg ''TrsmLLN'' L X))
      else None)"

text \<open>\<open>while( XB.Height() > 0 )\<close>\<close>

definition TrsmLLN_cond :: "'a sweep_state \<Rightarrow> bool" where
  "TrsmLLN_cond s = (Height (X_of s) - boundary s > 0)"

text \<open>
  Modelled from the spec: the partition helpers (\<open>PartitionDown\<close>, \<open>RepartitionDown\<close>,
  \<open>SlidePartitionDown\<close> and their \<open>Locked\<close> and \<open>Diagonal\<close> variants) are not part of the
  sources at hand.  By section 4.4 of the specification a repartition exposes the panel of
  \<open>nb = min(blocksize, XB.Height())\<close> rows under the boundary, and the slide moves the
  boundary past it; \<open>L\<close> and \<open>X\<close> are partitioned consistently.  So in one iteration
  \<open>X1\<close> is rows \<open>[k, k+nb)\<close> of \<open>X\<close>, \<open>X2\<close> the rows below, \<open>L11\<close> the diagonal block
  of \<open>L\<close> at \<open>k\<close> and \<open>L21\<close> the block under it.  The body is lines 86-105.
\<close>

definition TrsmLLN_body ::
  "nat \<Rightarrow> Diagonal \<Rightarrow> 'a::field AbstractDistMatrix \<Rightarrow> 'a sweep_state \<Rightarrow> 'a sweep_state" where
  "TrsmLLN_body blocksize diagonal L s =
     (let k = boundary s;
          X = X_of s;
          nb = min blocksize (Height X - k);
          L11 = View L k k nb nb;
          L21 = View L (k + nb) k (Height L - (k + nb)) nb;
          X1 = View X k 0 nb (Width X);
          L11_Star_Star = L11;
          X1_Star_VR = X1;
          X1_Star_VR = LocalTrsm diagonal 1 L11_Star_Star X1_Star_VR;
          X1_Star_MR = X1_Star_VR;
          X = Assign X k 0 X1_Star_MR;
          L21_MC_Star = L21;
          X2 = View X (k + nb) 0 (Height X - (k + nb)) (Width X);
          X2 = LocalGemm (- 1) L21_MC_Star X1_Star_MR 1 X2;
          X = Assign X (k + nb) 0 X2
      in \<lparr> boundary = k + nb, X_of = X,
           comm_log = comm_log s @
             [Redistribution (Star, Star) (MC, MR) nb nb,
              Redistribution (Star, VR) (MC, MR) nb (Width X),
              Redistribution (Star, MR) (Star, VR) nb (Width X),
              Redistribution (MC, MR) (Star, MR) nb (Width X),
              Redistribution (MC, Star) (MC, MR) (Height L - (k + nb)) nb] \<rparr>)"

definition TrsmLLN ::
  "bool \<Rightarrow> nat \<Rightarrow> nat \<Rightarrow> Diagonal \<Rightarrow> 'a::field \<Rightarrow> 'a AbstractDistMatrix \<Rightarrow> 'a AbstractDistMatrix \<Rightarrow>
     'a run option" where
  "TrsmLLN release blocksize fuel diagonal alpha L X =
     (let s0 = \<lparr> boundary = 0, X_of = X, comm_log = [] \<rparr>
      in case TrsmLLN_check release L X of
           Some e \<Rightarrow> Some \<lparr> thrown = Some e, final = s0 \<rparr>
         | None \<Rightarrow>
             map_option (\<lambda>s. \<lparr> thrown = None, final = s \<rparr>)
               (while_fuel fuel TrsmLLN_cond (TrsmLLN_body blocksize diagonal L)
                  (s0\<lparr> X_of := Scal alpha X \<rparr>)))"

subsection \<open>TrmmRLT\<close>

text \<open>The checks of lines 36-50, compiled only when \<open>RELEASE\<close> is not defined.\<close>

definition TrmmRLT_check ::
  "bool \<Rightarrow> Orientation \<Rightarrow> 'a AbstractDistMatrix \<Rightarrow> 'a AbstractDistMatrix \<Rightarrow> error option" where
  "TrmmRLT_check release orientation L X =
     (if release then None
      else if GetGrid L \<noteq> GetGrid X
        then Some (logic_error ''L and X must be distributed over the same grid.'')
      else if orientation = Normal
        then Some (logic_error ''TrmmRLT expects a (Conjugate)Transpose option.'')
      else if Height L \<noteq> Width L \<or> Width X \<noteq> Height L
        then Some (logic_error (Nonconformal_msg ''TrmmRLT'' L X))
      else None)"

text \<open>\<open>while( XL.Width() > 0 )\<close>: the boundary is \<open>XL.Width()\<close> and moves left.\<close>

definition TrmmRLT_cond :: "'a sweep_state \<Rightarrow> bool" where
  "TrmmRLT_cond s = (boundary s > 0)"

text \<open>
  Modelled from the spec: the partition helpers (\<open>PartitionLeft\<close>, \<open>RepartitionLeft\<close>,
  \<open>LockedRepartitionUpDiagonal\<close> and the slides) are not part of the sources at hand; as
  above they expose a panel of \<open>nb = min(blocksize, XL.Width())\<close> columns left of the
  boundary.  So in one iteration \<open>X1\<close> is columns \<open>[k-nb, k)\<close> of \<open>X\<close>, \<open>X0\<close> the columns
  left of \<open>X1\<close>, \<open>L11\<close> the diagonal block of \<open>L\<close> above the boundary and \<open>L10\<close> the
  block left of it.  \<open>SumScatterUpdate\<close> adds the summed contributions \<open>D1\<close> to \<open>X1\<close>.
  The body is lines 86-103.
\<close>

definition TrmmRLT_body ::
  "nat \<Rightarrow> ('a \<Rightarrow> 'a) \<Rightarrow> Orientation \<Rightarrow> Diagonal \<Rightarrow> 'a::comm_ring_1 AbstractDistMatrix \<Rightarrow>
     'a sweep_state \<Rightarrow> 'a sweep_state" where
  "TrmmRLT_body blocksize conjugate orientation diagonal L s =
     (let k = boundary s;
          X = X_of s;
          nb = min blocksize k;
          L10 = View L (k - nb) 0 nb (k - nb);
          L11 = View L (k - nb) (k - nb) nb nb;
          X0 = View X 0 0 (Height X) (k - nb);
          X1 = View X 0 (k - nb) (Height X) nb;
          D1_MC_Star = \<lparr> Height = Height X1, Width = Width X1, Entry = (\<lambda>i j. 0) \<rparr>;
          X1_VC_Star = X1;
          L11_Star_Star = L11;
          X1_VC_Star = LocalTrmm conjugate orientation diagonal 1 L11_Star_Star X1_VC_Star;
          X = Assign X 0 (k - nb) X1_VC_Star;
          L10_Star_MR = L10;
          D1_MC_Star = LocalGemm 1 X0 (Oriented conjugate orientation L10_Star_MR) 0 D1_MC_Star;
          X1 = View X 0 (k - nb) (Height X) nb;
          X1 = X1\<lparr> Entry := (\<lambda>i j. if i < Height X1 \<and> j < Width X1
                                      then Entry X1 i j + 1 * Entry D1_MC_Star i j
                                      else Entry X1 i j) \<rparr>;
          X = Assign X 0 (k - nb) X1
      in \<lparr> boundary = k - nb, X_of = X,
           comm_log = comm_log s @
             [Redistribution (VC, Star) (MC, MR) (Height X) nb,
              Redistribution (Star, Star) (MC, MR) nb nb,
              Redistribution (MC, MR) (VC, Star) (Height X) nb,
              Redistribution (Star, MR) (MC, MR) nb (k - nb),
              SumScatterUpdate (MC, MR) (MC, Star) (Height X) nb] \<rparr>)"

definition TrmmRLT ::
  "bool \<Rightarrow> nat \<Rightarrow> nat \<Rightarrow> ('a \<Rightarrow> 'a) \<Rightarrow> Orientation \<Rightarrow> Diagonal \<Rightarrow> 'a::comm_ring_1 \<Rightarrow>
     'a AbstractDistMatrix \<Rightarrow> 'a AbstractDistMatrix \<Rightarrow> 'a run option" where
  "TrmmRLT release blocksize fuel conjugate orientation diagonal alpha L X =
     (let s0 = \<lparr> boundary = 0, X_of = X, comm_log = [] \<rparr>
      in case TrmmRLT_check release orientation L X of
           Some e \<Rightarrow> Some \<lparr> thrown = Some e, final = s0 \<rparr>
         | None \<Rightarrow>
             map_option (\<lambda>s. \<lparr> thrown = None, final = s \<rparr>)
               (while_fuel fuel TrmmRLT_cond
                  (TrmmRLT_body blocksize conjugate orientation diagonal L)
                  (s0\<lparr> boundary := Width X, X_of := Scal alpha X \<rparr>)))"

text \<open>
  The invariant of the TrsmLLN sweep over the scaled right-hand side \<open>B = alpha X\<close>, with
  \<open>Y\<close> the forward substitution on the whole of \<open>L\<close> and \<open>B\<close>: the rows above the
  boundary hold \<open>Y\<close>, the rows below hold \<open>B\<close> minus the contribution of the solved rows.
\<close>

definition TrsmLLN_inv ::
  "Diagonal \<Rightarrow> 'a::field AbstractDistMatrix \<Rightarrow> 'a AbstractDistMatrix \<Rightarrow> (nat \<Rightarrow> nat \<Rightarrow> 'a) \<Rightarrow>
     'a sweep_state \<Rightarrow> bool" where
  "TrsmLLN_inv diagonal L X B s =
     (boundary s \<le> Height X \<and> Height (X_of s) = Height X \<and> Width (X_of s) = Width X \<and>
      GetGrid (X_of s) = GetGrid X \<and>
      (\<forall>i<Height X. \<forall>j<Width X.
         Entry (X_of s) i j =
           (if i < boundary s then forward_subst diagonal (Entry L) B i j
            else B i j - (\<Sum>m<boundary s. Entry L i m * forward_subst diagonal (Entry L) B m j))))"

text \<open>A small instance: a 3 x 3 lower factor and a 3 x 2 right-hand side on a 2 x 2 grid.\<close>

definition grid_ex :: Grid where
  "grid_ex = \<lparr> gId = 0, gHeight = 2, gWidth = 2 \<rparr>"

definition L_ex :: "rat AbstractDistMatrix" where
  "L_ex = \<lparr> Height = 3, Width = 3, Entry = (\<lambda>i j. of_nat (i + 2 * j + 1)), GetGrid = grid_ex \<rparr>"

definition X_ex :: "rat AbstractDistMatrix" where
  "X_ex = \<lparr> Height = 3, Width = 2, Entry = (\<lambda>i j. of_nat (i * i + j + 1)), GetGrid = grid_ex \<rparr>"

section \<open>TridiagL\<close>

text \<open>
  The two overloads of \<open>TridiagL\<close>: real scalars (lines 24-94) and complex scalars
  (lines 97-202).  They differ in the rank-2k update (\<open>Syr2k\<close> against \<open>Her2k\<close>) and in
  the handling of the vector \<open>t\<close> of Householder scalars.
\<close>

datatype scalar_kind = RealScalar | ComplexScalar

text \<open>
  The numerical work of an iteration is done by kernels that are not part of the sources
  at hand (\<open>PanelTridiagL\<close>, \<open>Syr2k\<close>, \<open>Her2k\<close>, \<open>Tridiag\<close>); an iteration is recorded
  as the sequence of operations it performs, each with the extents of its main operand.
\<close>

datatype tridiag_op =
    PanelTridiagL nat nat
  | Syr2k nat nat
  | Her2k nat nat
  | SetDiagonal nat
  | A11_to_Star_Star nat
  | t1_Star_Star_ResizeTo nat
  | LocalTridiag nat
  | A11_from_Star_Star nat
  | t1_from_Star_Star nat

record tridiag_iteration =
  ATL_Height :: nat
  A11_Height :: nat
  A22_Height :: nat
  ops :: "tridiag_op list"

record tridiag_state =
  ATL_of :: nat
  iterations :: "tridiag_iteration list"

text \<open>\<open>while( ATL.Height() < A.Height() )\<close>\<close>

definition TridiagL_cond :: "nat \<Rightarrow> tridiag_state \<Rightarrow> bool" where
  "TridiagL_cond n s = (ATL_of s < n)"

text \<open>
  Modelled from the spec: \<open>RepartitionDownDiagonal\<close> and \<open>SlidePartitionDownDiagonal\<close>
  are not part of the sources at hand.  By section 4.4 of the specification the
  repartition exposes the diagonal block \<open>A11\<close> of order \<open>min(blocksize, ABR.Height())\<close>
  and the slide moves the boundary past it; \<open>A22\<close> is what remains of \<open>ABR\<close> below and
  right of \<open>A11\<close>, \<open>A21\<close> the block under \<open>A11\<close>.  One iteration on a matrix of order
  \<open>n\<close> (lines 60-83 and 157-185):
\<close>

definition TridiagL_body :: "scalar_kind \<Rightarrow> nat \<Rightarrow> nat \<Rightarrow> tridiag_state \<Rightarrow> tridiag_state" where
  "TridiagL_body kind blocksize n s =
     (let k = ATL_of s;
          ABR_Height = n - k;
          A11_Height = min blocksize ABR_Height;
          A22_Height = ABR_Height - A11_Height;
          performed =
            (if A22_Height > 0
             then [PanelTridiagL ABR_Height A11_Height,
                   (case kind of RealScalar \<Rightarrow> Syr2k A22_Height A11_Height
                               | ComplexScalar \<Rightarrow> Her2k A22_Height A11_Height),
                   SetDiagonal A11_Height]
             else (case kind of
                     RealScalar \<Rightarrow>
                       [A11_to_Star_Star A11_Height, LocalTridiag A11_Height,
                        A11_from_Star_Star A11_Height]
                   | ComplexScalar \<Rightarrow>
                       [A11_to_Star_Star A11_Height, t1_Star_Star_ResizeTo (A11_Height - 1),
                        LocalTridiag A11_Height,
                        A11_from_Star_Star A11_Height, t1_from_Star_Star (A11_Height - 1)]))
      in \<lparr> ATL_of = k + A11_Height,
           iterations = iterations s @
             [\<lparr> ATL_Height = k, A11_Height = A11_Height, A22_Height = A22_Height,
                ops = performed \<rparr>] \<rparr>)"

text \<open>
  The sweep shared by the two overloads, on a matrix of order \<open>n\<close>: the iterations it
  performs, or \<open>None\<close> when it does not exit within the fuel.  Setting up the workspace
  of an iteration (views, alignments, resizing of temporaries) is not recorded.
\<close>

definition TridiagL_sweep :: "scalar_kind \<Rightarrow> nat \<Rightarrow> nat \<Rightarrow> nat \<Rightarrow> tridiag_iteration list option" where
  "TridiagL_sweep kind blocksize fuel n =
     map_option iterations
       (while_fuel fuel (TridiagL_cond n) (TridiagL_body kind blocksize n)
          \<lparr> ATL_of = 0, iterations = [] \<rparr>)"

text \<open>
  The real overload (lines 24-94): the debug-build check that \<open>A\<close> is square, then the
  sweep.  The result is the exception thrown, if any, and the iterations performed.
\<close>

definition TridiagL ::
  "bool \<Rightarrow> nat \<Rightarrow> nat \<Rightarrow> ('a, 'b) Matrix_scheme \<Rightarrow>
     (error option \<times> tridiag_iteration list) option" where
  "TridiagL release blocksize fuel A =
     (if \<not> release \<and> Height A \<noteq> Width A then Some (Some (logic_error ''A must be square.''), [])
      else map_option (\<lambda>its. (None, its)) (TridiagL_sweep RealScalar blocksize fuel (Height A)))"

text \<open>
  The complex overload (lines 97-202) also takes the vector \<open>t\<close> of Householder scalars,
  an \<open>[MD,*]\<close> matrix of which the routine reads the grid and whether it is a view or
  constrained.  After the debug-build checks it aligns \<open>t\<close> with the subdiagonal of \<open>A\<close>
  and calls \<open>t.ResizeTo( A.Height()-1, 1 )\<close>.  \<open>ResizeTo\<close> of \<open>[MD,*]\<close> is not part of
  the sources at hand: the parameter \<open>ResizeTo\<close> gives the exception it throws for the
  requested extents, if any.  The extents of \<open>t\<close> are of type \<open>int\<close>, as the request
  \<open>A.Height()-1\<close> is.
\<close>

record t_vector =
  t_GetGrid :: Grid
  t_Viewing :: bool
  t_ConstrainedColAlignment :: bool
  t_Height :: int
  t_Width :: int

definition TridiagL_complex ::
  "bool \<Rightarrow> (int \<Rightarrow> int \<Rightarrow> error option) \<Rightarrow> nat \<Rightarrow> nat \<Rightarrow> 'a AbstractDistMatrix \<Rightarrow> t_vector \<Rightarrow>
     (error option \<times> tridiag_iteration list) option" where
  "TridiagL_complex release ResizeTo blocksize fuel A t =
     (if \<not> release \<and> GetGrid A \<noteq> t_GetGrid t
        then Some (Some (logic_error ''A and t must be distributed over the same grid.''), [])
      else if \<not> release \<and> Height A \<noteq> Width A
        then Some (Some (logic_error ''A must be square.''), [])
      else if \<not> release \<and> (t_Viewing t \<or> t_ConstrainedColAlignment t)
        then Some (Some (logic_error ''t must not be a view or constrained.''), [])
      else case ResizeTo (int (Height A) - 1) 1 of
             Some e \<Rightarrow> Some (Some e, [])
           | None \<Rightarrow>
               map_option (\<lambda>its. (None, its))
                 (TridiagL_sweep ComplexScalar blocksize fuel (Height A)))"

text \<open>
  The part of the complex overload before its sweep (lines 103-118), with \<open>t\<close> followed
  through it: the exception thrown, or \<open>t\<close> with the extents that \<open>ResizeTo\<close> was asked
  for.  The alignment that \<open>AlignWithDiag\<close> gives \<open>t\<close> is not recorded.
\<close>

definition TridiagL_complex_prelude ::
  "bool \<Rightarrow> (int \<Rightarrow> int \<Rightarrow> error option) \<Rightarrow> 'a AbstractDistMatrix \<Rightarrow> t_vector \<Rightarrow>
     error + t_vector" where
  "TridiagL_complex_prelude release ResizeTo A t =
     (if \<not> release \<and> GetGrid A \<noteq> t_GetGrid t
        then Inl (logic_error ''A and t must be distributed over the same grid.'')
      else if \<not> release \<and> Height A \<noteq> Width A
        then Inl (logic_error ''A must be square.'')
      else if \<not> release \<and> (t_Viewing t \<or> t_ConstrainedColAlignment t)
        then Inl (logic_error ''t must not be a view or constrained.'')
      else case ResizeTo (int (Height A) - 1) 1 of
             Some e \<Rightarrow> Inl e
           | None \<Rightarrow> Inr (t\<lparr> t_Height := int (Height A) - 1, t_Width := 1 \<rparr>))"

text \<open>The operation sequences of the two branches of an iteration.\<close>

definition local_branch :: "scalar_kind \<Rightarrow> nat \<Rightarrow> tridiag_op list" where
  "local_branch kind nb =
     (case kind of
        RealScalar \<Rightarrow> [A11_to_Star_Star nb, LocalTridiag nb, A11_from_Star_Star nb]
      | ComplexScalar \<Rightarrow>
          [A11_to_Star_Star nb, t1_Star_Star_ResizeTo (nb - 1), LocalTridiag nb,
           A11_from_Star_Star nb, t1_from_Star_Star (nb - 1)])"

definition panel_branch :: "scalar_kind \<Rightarrow> nat \<Rightarrow> nat \<Rightarrow> tridiag_op list" where
  "panel_branch kind nb rest =
     [PanelTridiagL (nb + rest) nb,
      (case kind of RealScalar \<Rightarrow> Syr2k rest nb | ComplexScalar \<Rightarrow> Her2k rest nb),
      SetDiagonal nb]"

text \<open>
  The invariant of the sweep: the iterations recorded so far start at consecutive
  positions below \<open>n\<close>, each took the branch that its trailing block selects, and all of
  them but possibly the last had a non-empty trailing block.
\<close>

definition iteration_ok :: "scalar_kind \<Rightarrow> nat \<Rightarrow> nat \<Rightarrow> tridiag_iteration \<Rightarrow> bool" where
  "iteration_ok kind blocksize n it =
     (ATL_Height it < n \<and>
      A11_Height it = min blocksize (n - ATL_Height it) \<and>
      A22_Height it = n - ATL_Height it - A11_Height it \<and>
      (if A22_Height it = 0 then ops it = local_branch kind (A11_Height it)
       else ops it = panel_branch kind (A11_Height it) (A22_Height it)))"

text \<open>
  What the sweep is to satisfy on a matrix of order \<open>n\<close>: every iteration cut a diagonal
  block of \<open>min(blocksize, remaining)\<close> and took the local branch when nothing trails it
  and the panel branch otherwise; and nothing trails the block in the last iteration only.
\<close>

definition branches_ok :: "scalar_kind \<Rightarrow> nat \<Rightarrow> nat \<Rightarrow> tridiag_iteration list \<Rightarrow> bool" where
  "branches_ok kind blocksize n its =
     ((\<forall>it \<in> set its.
          A11_Height it = min blocksize (n - ATL_Height it)
        \<and> A22_Height it = n - ATL_Height it - A11_Height it
        \<and> (A22_Height it = 0 \<longrightarrow> ops it = local_branch kind (A11_Height it))
        \<and> (A22_Height it > 0 \<longrightarrow> ops it = panel_branch kind (A11_Height it) (A22_Height it)))
      \<and> (\<forall>i<length its. (A22_Height (its ! i) = 0) = (Suc i = length its)))"

definition TridiagL_inv :: "scalar_kind \<Rightarrow> nat \<Rightarrow> nat \<Rightarrow> tridiag_state \<Rightarrow> bool" where
  "TridiagL_inv kind blocksize n s =
     (ATL_of s \<le> n \<and>
      (\<forall>it \<in> set (iterations s). iteration_ok kind blocksize n it) \<and>
      (\<forall>i<length (iterations s). A22_Height (iterations s ! i) = 0 \<longrightarrow>
          Suc i = length (iterations s) \<and> ATL_of s = n) \<and>
      (ATL_of s = n \<and> iterations s \<noteq> [] \<longrightarrow> A22_Height (last (iterations s)) = 0))"

text \<open>
  A small instance: a symmetric matrix of order 5 on the 2 x 2 grid, a vector \<open>t\<close> on
  that grid, and a \<open>ResizeTo\<close> that rejects negative extents.
\<close>

definition A_ex :: "rat AbstractDistMatrix" where
  "A_ex = \<lparr> Height = 5, Width = 5, Entry = (\<lambda>i j. of_nat (i + j)), GetGrid = grid_ex \<rparr>"

definition t_ex :: t_vector where
  "t_ex = \<lparr> t_GetGrid = grid_ex, t_Viewing = False, t_ConstrainedColAlignment = False,
           t_Height = 0, t_Width = 0 \<rparr>"

text \<open>The empty matrix on that grid.\<close>

definition A_empty :: "rat AbstractDistMatrix" where
  "A_empty = \<lparr> Height = 0, Width = 0, Entry = (\<lambda>i j. 0), GetGrid = grid_ex \<rparr>"

definition ResizeTo_ex :: "int \<Rightarrow> int \<Rightarrow> error option" where
  "ResizeTo_ex h w =
     (if h < 0 \<or> w < 0 then Some (logic_error ''Height and width must be non-negative.'')
      else None)"

section \<open>TwoNormEstimate\<close>

text \<open>
  The power iteration of \<open>TwoNormEstimate( const Matrix<F>& A, tol, maxIts )\<close> runs on
  kernels that are not part of the sources at hand; they are parameters of the model.
  \<open>Gaussian\<close> draws a random vector of the given extents and advances the generator,
  \<open>Gemv\<close> is the matrix-vector product with \<open>A\<close> or its adjoint, \<open>FrobeniusNorm\<close> the
  norm of a vector, \<open>Scale\<close> the scaling of a vector.  The scalars of type \<open>Real\<close> are
  real numbers here.
\<close>

record ('m, 'v, 'g) kernels =
  Gaussian :: "'g \<Rightarrow> nat \<Rightarrow> nat \<Rightarrow> 'v \<times> 'g"
  Gemv :: "Orientation \<Rightarrow> 'm \<Rightarrow> 'v \<Rightarrow> 'v"
  FrobeniusNorm :: "'v \<Rightarrow> real"
  Scale :: "real \<Rightarrow> 'v \<Rightarrow> 'v"

record ('v, 'g) twonorm_state =
  x_of :: 'v
  y_of :: 'v
  gen :: 'g
  numIts :: int
  estimate :: real
  lastEst :: real

text \<open>The body of the \<open>do\<close> loop (lines 320-330), up to the increment of \<open>numIts\<close>.\<close>

definition TwoNorm_body ::
  "('m, 'v, 'g) kernels \<Rightarrow> 'm \<Rightarrow> nat \<Rightarrow> ('v, 'g) twonorm_state \<Rightarrow> ('v, 'g) twonorm_state" where
  "TwoNorm_body K A m s =
     (let lastEst = estimate s;
          x = Gemv K Normal A (y_of s);
          xNorm = FrobeniusNorm K x;
          (x, g) = (if xNorm = 0 then Gaussian K (gen s) m 1
                    else (Scale K (1 / xNorm) x, gen s));
          y = Gemv K ConjugateTranspose A x;
          estimate = FrobeniusNorm K y
      in s\<lparr> x_of := x, y_of := y, gen := g, estimate := estimate, lastEst := lastEst \<rparr>)"

text \<open>
  \<open>do { ... } while( ++numIts < maxIts && Abs(estimate-lastEst) > tol*Max(m,n) );\<close>
  The counter is incremented after every pass through the body, before the test.
\<close>

function TwoNorm_loop ::
  "('m, 'v, 'g) kernels \<Rightarrow> 'm \<Rightarrow> nat \<Rightarrow> nat \<Rightarrow> real \<Rightarrow> int \<Rightarrow> ('v, 'g) twonorm_state \<Rightarrow>
     ('v, 'g) twonorm_state" where
  "TwoNorm_loop K A m n tol maxIts s =
     (let s' = (TwoNorm_body K A m s)\<lparr> numIts := numIts s + 1 \<rparr>
      in if numIts s + 1 < maxIts \<and> \<bar>estimate s' - lastEst s'\<bar> > tol * real (max m n)
         then TwoNorm_loop K A m n tol maxIts s'
         else s')"
  by pat_completeness auto
termination
  by (relation "measure (\<lambda>(K, A, m, n, tol, maxIts, s). nat (maxIts - numIts s))") auto

declare TwoNorm_loop.simps [simp del]

text \<open>
  The state before the loop: \<open>y\<close> is Gaussian of height \<open>n\<close>, \<open>x\<close> is the empty matrix
  \<open>x0\<close>, \<open>numIts\<close> and \<open>estimate\<close> are zero.  \<open>lastEst\<close> is not initialised in the source
  and is assigned by the body before it is read; the model starts it at zero.
\<close>

definition TwoNorm_init ::
  "('m, 'v, 'g) kernels \<Rightarrow> nat \<Rightarrow> 'v \<Rightarrow> 'g \<Rightarrow> ('v, 'g) twonorm_state" where
  "TwoNorm_init K n x0 g0 =
     (let (y, g) = Gaussian K g0 n 1
      in \<lparr> x_of = x0, y_of = y, gen = g, numIts = 0, estimate = 0, lastEst = 0 \<rparr>)"

definition TwoNormEstimate ::
  "('m, 'v, 'g) kernels \<Rightarrow> 'm \<Rightarrow> nat \<Rightarrow> nat \<Rightarrow> real \<Rightarrow> int \<Rightarrow> 'v \<Rightarrow> 'g \<Rightarrow> error + real" where
  "TwoNormEstimate K A m n tol maxIts x0 g0 =
     (let s = TwoNorm_loop K A m n tol maxIts (TwoNorm_init K n x0 g0)
      in if \<bar>estimate s - lastEst s\<bar> > tol * real (max m n)
         then Inl (runtime_error ''Two-norm estimate did not converge in time'')
         else Inr (estimate s))"

text \<open>
  A one-by-one instance of the kernels: matrices and vectors are single real numbers and
  the generator always draws 1.
\<close>

definition scalar_kernels :: "(real, real, unit) kernels" where
  "scalar_kernels =
     \<lparr> Gaussian = (\<lambda>g h w. (1, g)),
       Gemv = (\<lambda>orientation a v. a * v),
       FrobeniusNorm = (\<lambda>v. \<bar>v\<bar>),
       Scale = (\<lambda>c v. c * v) \<rparr>"

section \<open>Storage: distribution schemes over the process grid\<close>

text \<open>
  A process is named by its grid coordinates \<open>(MCRank, MRRank)\<close>: its row and its column
  in the grid.
\<close>

type_synonym process = "nat \<times> nat"

definition procs :: "Grid \<Rightarrow> process set" where
  "procs g = {(r, c). r < gHeight g \<and> c < gWidth g}"

definition proc_list :: "Grid \<Rightarrow> process list" where
  "proc_list g = concat (map (\<lambda>r. map (\<lambda>c. (r, c)) [0..<gWidth g]) [0..<gHeight g])"

text \<open>
  Modelled from the spec: the header of \<open>DistMatrix[* ,MC]\<close> declares the redistributing
  assignments and calls \<open>utilities::Shift\<close> and \<open>utilities::LocalLength\<close>, but the
  definitions of the schemes, of these utilities and of the assignments are not part of
  the sources at hand.  They follow section 3 of the specification.  Along one axis a
  matrix is replicated (\<open>Star\<close>), interleaved over the rows of the grid (\<open>MC\<close>), over its
  columns (\<open>MR\<close>), or over all processes in column-major (\<open>VC\<close>) or row-major (\<open>VR\<close>)
  order.  \<open>Stride\<close> is the number of shards of a scheme and \<open>Rank\<close> the shard a process
  holds; \<open>Place\<close> moves a process to the member of its group holding a given shard.
\<close>

definition Stride :: "Distribution \<Rightarrow> Grid \<Rightarrow> nat" where
  "Stride d g =
     (case d of MC \<Rightarrow> gHeight g | MR \<Rightarrow> gWidth g | VC \<Rightarrow> gHeight g * gWidth g
              | VR \<Rightarrow> gHeight g * gWidth g | Star \<Rightarrow> 1)"

definition Rank :: "Distribution \<Rightarrow> Grid \<Rightarrow> process \<Rightarrow> nat" where
  "Rank d g p =
     (case d of MC \<Rightarrow> fst p | MR \<Rightarrow> snd p | VC \<Rightarrow> fst p + gHeight g * snd p
              | VR \<Rightarrow> snd p + gWidth g * fst p | Star \<Rightarrow> 0)"

definition Place :: "Distribution \<Rightarrow> Grid \<Rightarrow> nat \<Rightarrow> process \<Rightarrow> process" where
  "Place d g k p =
     (case d of MC \<Rightarrow> (k, snd p) | MR \<Rightarrow> (fst p, k) | VC \<Rightarrow> (k mod gHeight g, k div gHeight g)
              | VR \<Rightarrow> (k div gWidth g, k mod gWidth g) | Star \<Rightarrow> p)"

text \<open>The pairs of schemes of the catalogue (those that involve \<open>MD\<close> left out).\<close>

definition legal :: "Distribution \<times> Distribution \<Rightarrow> bool" where
  "legal s = (s \<in> {(MC, MR), (MC, Star), (MR, MC), (MR, Star), (Star, MC), (Star, MR),
                    (Star, VC), (Star, VR), (Star, Star), (VC, Star), (VR, Star)})"

text \<open>
  The alignment is the rank that owns global index 0; the shift of a process is the first
  global index it owns, and it owns every \<open>Stride\<close>-th index from there on:
  \<open>ceil((extent - shift) / stride)\<close> of them.
\<close>

definition Shift :: "nat \<Rightarrow> nat \<Rightarrow> nat \<Rightarrow> nat" where
  "Shift rank alignment stride = (rank + stride - alignment) mod stride"

definition LocalLength :: "nat \<Rightarrow> nat \<Rightarrow> nat \<Rightarrow> nat" where
  "LocalLength n shift stride = (if shift < n then (n - shift - 1) div stride + 1 else 0)"

text \<open>
  The members of \<open>AbstractDistMatrix\<close>, in the order of its constructor
  \<open>ADM(height, width, constrainedColAlignment, constrainedRowAlignment, colAlignment,
  rowAlignment, colShift, rowShift, g)\<close>, together with the scheme (a template parameter
  in the source) and the local matrix.  The shifts and the local matrix are per process.
\<close>

record 'a DistMatrix =
  colDist :: Distribution
  rowDist :: Distribution
  height :: nat
  width :: nat
  constrainedColAlignment :: bool
  constrainedRowAlignment :: bool
  colAlignment :: nat
  rowAlignment :: nat
  colShift :: "process \<Rightarrow> nat"
  rowShift :: "process \<Rightarrow> nat"
  grid :: Grid
  localMatrix :: "process \<Rightarrow> 'a Matrix"

definition colStride :: "('a, 'b) DistMatrix_scheme \<Rightarrow> nat" where
  "colStride A = Stride (colDist A) (grid A)"

definition rowStride :: "('a, 'b) DistMatrix_scheme \<Rightarrow> nat" where
  "rowStride A = Stride (rowDist A) (grid A)"

text \<open>
  The layout invariant: a legal scheme on a non-empty grid, alignments that name a shard,
  and on every process the shift that the alignment gives it.
\<close>

definition layout_ok :: "('a, 'b) DistMatrix_scheme \<Rightarrow> bool" where
  "layout_ok A =
     (0 < gHeight (grid A) \<and> 0 < gWidth (grid A) \<and> legal (colDist A, rowDist A) \<and>
      colAlignment A < colStride A \<and> rowAlignment A < rowStride A \<and>
      (\<forall>p \<in> procs (grid A).
         colShift A p = Shift (Rank (colDist A) (grid A) p) (colAlignment A) (colStride A) \<and>
         rowShift A p = Shift (Rank (rowDist A) (grid A) p) (rowAlignment A) (rowStride A)))"

text \<open>
  A matrix is well formed when, beyond the layout, every local matrix has the local
  lengths of its process and processes holding the same shard hold the same entries
  (replicated means that every process of the group holds the full extent).
\<close>

definition well_formed :: "'a DistMatrix \<Rightarrow> bool" where
  "well_formed A =
     (layout_ok A \<and>
      (\<forall>p \<in> procs (grid A).
         Height (localMatrix A p) = LocalLength (height A) (colShift A p) (colStride A) \<and>
         Width (localMatrix A p) = LocalLength (width A) (rowShift A p) (rowStride A)) \<and>
      (\<forall>p \<in> procs (grid A). \<forall>q \<in> procs (grid A).
         Rank (colDist A) (grid A) p = Rank (colDist A) (grid A) q \<and>
         Rank (rowDist A) (grid A) p = Rank (rowDist A) (grid A) q \<longrightarrow>
         (\<forall>i<Height (localMatrix A p). \<forall>j<Width (localMatrix A p).
            Entry (localMatrix A p) i j = Entry (localMatrix A q) i j)))"

text \<open>
  The owner of the global entry \<open>(i, j)\<close> that process \<open>q\<close> reads from: the member of
  \<open>q\<close>'s groups that holds the shards of \<open>i\<close> and \<open>j\<close>.  \<open>Get\<close> reads the entry there.
\<close>

definition Owner :: "('a, 'b) DistMatrix_scheme \<Rightarrow> process \<Rightarrow> nat \<Rightarrow> nat \<Rightarrow> process" where
  "Owner A q i j =
     Place (rowDist A) (grid A) ((j + rowAlignment A) mod rowStride A)
       (Place (colDist A) (grid A) ((i + colAlignment A) mod colStride A) q)"

definition Get :: "'a DistMatrix \<Rightarrow> process \<Rightarrow> nat \<Rightarrow> nat \<Rightarrow> 'a" where
  "Get A q i j = Entry (localMatrix A (Owner A q i j)) (i div colStride A) (j div rowStride A)"

text \<open>
  Modelled from the spec: the redistributing assignment \<open>B = A\<close> (one \<open>operator=\<close> per
  pair of schemes; only the declarations are in the sources at hand).  It fails with a
  logic error when the grids differ; otherwise \<open>B\<close> keeps its scheme and alignment, takes
  the extents of \<open>A\<close>, and every process receives, for each local position, the entry of
  \<open>A\<close> with the global index of that position.  Entries are moved, never computed with:
  the entry type is arbitrary.
\<close>

definition Redistribute :: "'a DistMatrix \<Rightarrow> 'a DistMatrix \<Rightarrow> 'a DistMatrix" where
  "Redistribute B A =
     B\<lparr> height := height A, width := width A,
        localMatrix := (\<lambda>q.
          \<lparr> Height = LocalLength (height A) (colShift B q) (colStride B),
            Width = LocalLength (width A) (rowShift B q) (rowStride B),
            Entry = (\<lambda>iLoc jLoc.
               Get A q (colShift B q + iLoc * colStride B) (rowShift B q + jLoc * rowStride B)) \<rparr>) \<rparr>"

definition assign_from :: "'a DistMatrix \<Rightarrow> 'a DistMatrix \<Rightarrow> error + 'a DistMatrix" where
  "assign_from B A =
     (if grid B \<noteq> grid A then Inl (logic_error ''Grids do not match.'')
      else Inr (Redistribute B A))"

text \<open>
  A chain of redistributing assignments \<open>B\<^sub>1 = X; B\<^sub>2 = B\<^sub>1; \<dots>\<close>, stopping at the first
  error, and the round trip that ends with the assignment back to \<open>A\<close> itself, whose scheme
  and alignment stay as they are: \<open>X1[*,VR] = X1; X1[*,MR] = X1[*,VR]; X1 = X1[*,MR]\<close>.
\<close>

fun assign_chain :: "'a DistMatrix \<Rightarrow> 'a DistMatrix list \<Rightarrow> error + 'a DistMatrix" where
  "assign_chain X [] = Inr X"
| "assign_chain X (B # Bs) =
     (case assign_from B X of Inl e \<Rightarrow> Inl e | Inr B' \<Rightarrow> assign_chain B' Bs)"

definition round_trip :: "'a DistMatrix \<Rightarrow> 'a DistMatrix list \<Rightarrow> error + 'a DistMatrix" where
  "round_trip A Bs = assign_chain A (Bs @ [A])"

text \<open>
  What a chain preserves: the extents, the grid and the global entries of \<open>A\<close>, whichever
  process reads them.
\<close>

definition holds_contents_of :: "'a DistMatrix \<Rightarrow> 'a DistMatrix \<Rightarrow> bool" where
  "holds_contents_of A X =
     (height X = height A \<and> width X = width A \<and> grid X = grid A \<and>
      (\<forall>q \<in> procs (grid A). \<forall>i<height A. \<forall>j<width A. Get X q i j = Get A q i j))"

text \<open>
  \<open>same_entries A' A\<close>: the two matrices have the same scheme, extents, alignments and
  grid, and on every process local matrices of the same extents with the same entries.
\<close>

definition same_entries :: "'a DistMatrix \<Rightarrow> 'a DistMatrix \<Rightarrow> bool" where
  "same_entries A' A =
     (colDist A' = colDist A \<and> rowDist A' = rowDist A \<and>
      height A' = height A \<and> width A' = width A \<and>
      colAlignment A' = colAlignment A \<and> rowAlignment A' = rowAlignment A \<and>
      grid A' = grid A \<and>
      (\<forall>p \<in> procs (grid A).
         Height (localMatrix A' p) = Height (localMatrix A p) \<and>
         Width (localMatrix A' p) = Width (localMatrix A p) \<and>
         (\<forall>i<Height (localMatrix A p). \<forall>j<Width (localMatrix A p).
            Entry (localMatrix A' p) i j = Entry (localMatrix A p) i j)))"

text \<open>
  The matrix of a given scheme and alignment that holds given global entries: every
  process stores the entries whose indices it owns.
\<close>

definition from_global ::
  "Distribution \<times> Distribution \<Rightarrow> nat \<Rightarrow> nat \<Rightarrow> Grid \<Rightarrow> 'a Matrix \<Rightarrow> 'a DistMatrix" where
  "from_global s ca ra g M =
     \<lparr> colDist = fst s, rowDist = snd s, height = Height M, width = Width M,
       constrainedColAlignment = False, constrainedRowAlignment = False,
       colAlignment = ca, rowAlignment = ra,
       colShift = (\<lambda>p. Shift (Rank (fst s) g p) ca (Stride (fst s) g)),
       rowShift = (\<lambda>p. Shift (Rank (snd s) g p) ra (Stride (snd s) g)),
       grid = g,
       localMatrix = (\<lambda>p.
         \<lparr> Height = LocalLength (Height M) (Shift (Rank (fst s) g p) ca (Stride (fst s) g))
                      (Stride (fst s) g),
           Width = LocalLength (Width M) (Shift (Rank (snd s) g p) ra (Stride (snd s) g))
                     (Stride (snd s) g),
           Entry = (\<lambda>iLoc jLoc.
              Entry M (Shift (Rank (fst s) g p) ca (Stride (fst s) g) + iLoc * Stride (fst s) g)
                      (Shift (Rank (snd s) g p) ra (Stride (snd s) g) + jLoc * Stride (snd s) g)) \<rparr>) \<rparr>"

text \<open>The local matrices as lists of rows, process by process, for inspection.\<close>

definition rows_of :: "'a Matrix \<Rightarrow> 'a list list" where
  "rows_of M = map (\<lambda>i. map (Entry M i) [0..<Width M]) [0..<Height M]"

definition locals_of :: "'a DistMatrix \<Rightarrow> (process \<times> 'a list list) list" where
  "locals_of A = map (\<lambda>p. (p, rows_of (localMatrix A p))) (proc_list (grid A))"

text \<open>A 2 x 3 grid and a 5 x 4 matrix of distinct entries on it, in the \<open>[MC,MR]\<close> scheme.\<close>

definition grid23 :: Grid where
  "grid23 = \<lparr> gId = 0, gHeight = 2, gWidth = 3 \<rparr>"

definition M_ex :: "nat Matrix" where
  "M_ex = \<lparr> Height = 5, Width = 4, Entry = (\<lambda>i j. 10 * i + j) \<rparr>"

definition D_ex :: "nat DistMatrix" where
  "D_ex = from_global (MC, MR) 1 2 grid23 M_ex"

text \<open>Empty temporaries of the schemes \<open>[*,VR]\<close> and \<open>[*,MR]\<close> on that grid.\<close>

definition Star_VR_ex :: "nat DistMatrix" where
  "Star_VR_ex = from_global (Star, VR) 0 4 grid23 \<lparr> Height = 0, Width = 0, Entry = (\<lambda>i j. 0) \<rparr>"

definition Star_MR_ex :: "nat DistMatrix" where
  "Star_MR_ex = from_global (Star, MR) 0 0 grid23 \<lparr> Height = 0, Width = 0, Entry = (\<lambda>i j. 0) \<rparr>"

section \<open>Nrm2 of a distributed vector\<close>

text \<open>
  Modelled from the spec: the sequential kernels \<open>Nrm2( x.LockedLocalMatrix() )\<close> and
  \<open>wrappers::blas::Nrm2( r, localNormsPtr, 1 )\<close> are not part of the sources at hand;
  they return the Euclidean norm of the entries they are given, here in exact real
  arithmetic.  \<open>norm\<close> is the absolute value of a real or complex entry.
\<close>

definition LocalNrm2 :: "'a::real_normed_vector Matrix \<Rightarrow> real" where
  "LocalNrm2 M = sqrt (\<Sum>i<Height M. \<Sum>j<Width M. (norm (Entry M i j))\<^sup>2)"

definition blas_Nrm2 :: "real list \<Rightarrow> real" where
  "blas_Nrm2 v = sqrt (\<Sum>k<length v. (v ! k)\<^sup>2)"

text \<open>
  The two collectives, on values held per process.  \<open>AllGather\<close> over the communicator of
  a process's grid column (\<open>g.MCComm()\<close>) or grid row (\<open>g.MRComm()\<close>) hands every member
  the contributions of all members, in rank order.  \<open>Broadcast\<close> over such a communicator
  hands every member the value of the member with the root rank.
\<close>

definition AllGather_MCComm :: "Grid \<Rightarrow> (process \<Rightarrow> 'v) \<Rightarrow> process \<Rightarrow> 'v list" where
  "AllGather_MCComm g v q = map (\<lambda>k. v (k, snd q)) [0..<gHeight g]"

definition AllGather_MRComm :: "Grid \<Rightarrow> (process \<Rightarrow> 'v) \<Rightarrow> process \<Rightarrow> 'v list" where
  "AllGather_MRComm g v q = map (\<lambda>k. v (fst q, k)) [0..<gWidth g]"

definition Broadcast_MRComm :: "nat \<Rightarrow> (process \<Rightarrow> 'v) \<Rightarrow> process \<Rightarrow> 'v" where
  "Broadcast_MRComm rootRank v q = v (fst q, rootRank)"

definition Broadcast_MCComm :: "nat \<Rightarrow> (process \<Rightarrow> 'v) \<Rightarrow> process \<Rightarrow> 'v" where
  "Broadcast_MCComm rootRank v q = v (rootRank, snd q)"

text \<open>
  \<open>blas::Nrm2( const DistMatrix<R,MC,MR>& x )\<close> (lines 24-71) and its complex twin (lines
  74-121), which read the same; the result is what the call returns on process \<open>p\<close>.  The
  debug build rejects an \<open>x\<close> that is not a vector.  When \<open>x\<close> has width 1, the processes
  of the grid column \<open>ownerCol\<close> compute their local norms, all-gather them over their
  column and take the norm of the gathered values; then the value is broadcast along
  every grid row from the member in column \<open>ownerCol\<close>.  Otherwise the same happens with
  rows and columns exchanged.  The variable \<open>norm\<close> is not initialised: on the processes
  that skip the computation it holds, until the broadcast, whatever \<open>uninitialised\<close> says.
\<close>

definition Nrm2 ::
  "bool \<Rightarrow> (process \<Rightarrow> real) \<Rightarrow> 'a::real_normed_vector DistMatrix \<Rightarrow> process \<Rightarrow> error + real" where
  "Nrm2 release uninitialised x p =
     (if \<not> release \<and> height x \<noteq> 1 \<and> width x \<noteq> 1 then Inl (logic_error ''x must be a vector.'')
      else
        let g = grid x;
            localNorm = (\<lambda>q. LocalNrm2 (localMatrix x q))
        in if width x = 1 then
             let ownerCol = rowAlignment x;
                 norm' = (\<lambda>q. if snd q = ownerCol
                               then blas_Nrm2 (AllGather_MCComm g localNorm q)
                               else uninitialised q)
             in Inr (Broadcast_MRComm ownerCol norm' p)
           else
             let ownerRow = colAlignment x;
                 norm' = (\<lambda>q. if fst q = ownerRow
                               then blas_Nrm2 (AllGather_MRComm g localNorm q)
                               else uninitialised q)
             in Inr (Broadcast_MCComm ownerRow norm' p))"

text \<open>The global entries of a matrix, read at the owners seen from the first process.\<close>

definition Global :: "'a DistMatrix \<Rightarrow> nat \<Rightarrow> nat \<Rightarrow> 'a" where
  "Global A i j = Get A (0, 0) i j"

text \<open>A column vector of height 5 on the 2 x 3 grid, owned by grid column 2.\<close>

definition v_ex :: "real DistMatrix" where
  "v_ex = from_global (MC, MR) 1 2 grid23
            \<lparr> Height = 5, Width = 1, Entry = (\<lambda>i j. if i = 0 then 3 else if i = 3 then 4 else 0) \<rparr>"

section \<open>The copy constructor of DistMatrix[*,MC]\<close>

text \<open>
  Objects live in a store, addressed by numbers; \<open>this\<close> and the argument of the copy
  constructor are addresses, so that the test \<open>&A != this\<close> is a comparison of addresses.
  The store holds some value at every address: before its construction an object is
  whatever the memory held.
\<close>

type_synonym 'a store = "nat \<Rightarrow> 'a DistMatrix"

text \<open>
  \<open>DistMatrixBase<T,Star,MC>::DistMatrixBase( height, width, constrainedRowAlignment,
  rowAlignment, rowShift, g )\<close> (lines 413-423), which forwards to
  \<open>ADM(height,width,false,constrainedRowAlignment,0,rowAlignment,0,rowShift,g)\<close>.  The local
  matrix starts empty; its unallocated entries are what the memory \<open>raw\<close> held.
\<close>

definition DistMatrixBase_Star_MC ::
  "'a DistMatrix \<Rightarrow> nat \<Rightarrow> nat \<Rightarrow> bool \<Rightarrow> nat \<Rightarrow> (process \<Rightarrow> nat) \<Rightarrow> Grid \<Rightarrow> 'a DistMatrix" where
  "DistMatrixBase_Star_MC raw h w constrainedRowAlignment' rowAlignment' rowShift' g =
     \<lparr> colDist = Star, rowDist = MC, height = h, width = w,
       constrainedColAlignment = False, constrainedRowAlignment = constrainedRowAlignment',
       colAlignment = 0, rowAlignment = rowAlignment',
       colShift = (\<lambda>p. 0), rowShift = rowShift',
       grid = g,
       localMatrix = (\<lambda>p. \<lparr> Height = 0, Width = 0, Entry = Entry (localMatrix raw p) \<rparr>) \<rparr>"

text \<open>
  \<open>DistMatrix<R,Star,MC>::DistMatrix( const DistMatrix<R,Star,MC>& A )\<close> (lines 483-500)
  and its complex twin (lines 639-656), which read the same.  The base is initialised
  with \<open>DMB(0,0,false,0,0,A.GetGrid())\<close>; then, unless \<open>A\<close> is the object under
  construction, \<open>*this = A\<close>.  The assignment \<open>operator=\<close> of \<open>[*,MC]\<close> from \<open>[*,MC]\<close> is
  declared but not defined in the sources at hand; it is the parameter \<open>assign\<close>, given
  the target and the source and returning the new target or the error it throws.
\<close>

definition DistMatrix_Star_MC_copy ::
  "('a DistMatrix \<Rightarrow> 'a DistMatrix \<Rightarrow> error + 'a DistMatrix) \<Rightarrow> 'a store \<Rightarrow> nat \<Rightarrow> nat \<Rightarrow>
     error + 'a store" where
  "DistMatrix_Star_MC_copy assign st this A =
     (let g = grid (st A);
          st = st(this := DistMatrixBase_Star_MC (st this) 0 0 False 0 (\<lambda>p. 0) g)
      in if A \<noteq> this
         then (case assign (st this) (st A) of
                 Inl e \<Rightarrow> Inl e
               | Inr B \<Rightarrow> Inr (st(this := B)))
         else Inl (logic_error ''Attempted to construct a [* ,MC] with itself.''))"

text \<open>A store with a \<open>[*,MC]\<close> matrix at address 1 and another at address 0.\<close>

definition store_ex :: "nat store" where
  "store_ex = (\<lambda>a. if a = 1 then from_global (Star, MC) 0 1 grid23 M_ex
                    else from_global (Star, MC) 0 0 grid23 \<lparr> Height = 0, Width = 0, Entry = (\<lambda>i j. 0) \<rparr>)"

section \<open>Facts about loops with fuel\<close>

lemma while_fuel_mono:
  "while_fuel f c b s = Some t \<Longrightarrow> f \<le> f' \<Longrightarrow> while_fuel f' c b s = Some t"
proof (induction f arbitrary: f' s)
  case 0
  then show ?case by simp
next
  case (Suc f)
  then obtain g where g: "f' = Suc g" "f \<le> g" by (cases f') auto
  show ?case
  proof (cases "c s")
    case True
    with Suc.prems(1) have "while_fuel f c b (b s) = Some t" by simp
    from Suc.IH [OF this g(2)] True g(1) show ?thesis by simp
  next
    case False
    with Suc.prems(1) g(1) show ?thesis by simp
  qed
qed

lemma while_fuel_rule:
  assumes "while_fuel f c b s = Some t" and "P s"
    and step: "\<And>s. P s \<Longrightarrow> c s \<Longrightarrow> P (b s)"
  shows "P t \<and> \<not> c t"
  using assms(1,2)
proof (induction f arbitrary: s)
  case 0
  then show ?case by simp
next
  case (Suc f)
  show ?case
  proof (cases "c s")
    case True
    with Suc.prems(1) have w: "while_fuel f c b (b s) = Some t" by simp
    from step [OF Suc.prems(2) True] Suc.IH [OF w] show ?thesis by blast
  next
    case False
    with Suc.prems show ?thesis by simp
  qed
qed

lemma while_fuel_total:
  assumes step: "\<And>s. P s \<Longrightarrow> c s \<Longrightarrow> P (b s) \<and> m (b s) < (m s :: nat)"
    and "P s" and "m s < f"
  shows "\<exists>t. while_fuel f c b s = Some t"
  using assms(2,3)
proof (induction f arbitrary: s)
  case 0
  then show ?case by simp
next
  case (Suc f)
  show ?case
  proof (cases "c s")
    case True
    from step [OF Suc.prems(1) True] Suc.prems(2)
    have "P (b s)" "m (b s) < f" by auto
    from Suc.IH [OF this] True show ?thesis by simp
  next
    case False
    then show ?thesis by simp
  qed
qed

section \<open>The Trr2kNNTT sweep partitions the inner dimension\<close>

lemma tiles_append:
  "tiles k (ps @ qs) r = (\<exists>m. tiles k ps m \<and> tiles m qs r)"
  by (induction ps arbitrary: k) auto

lemma tiles_le: "tiles k ps r \<Longrightarrow> k \<le> r"
  by (induction ps arbitrary: k) force+

lemma tiles_start_le:
  "tiles k ps r \<Longrightarrow> n < length ps \<Longrightarrow> k \<le> fst (ps ! n)"
proof (induction ps arbitrary: k n)
  case Nil
  then show ?case by simp
next
  case (Cons p ps)
  obtain a b where p: "p = (a, b)" by (cases p)
  show ?case
  proof (cases n)
    case 0
    with Cons.prems p show ?thesis by simp
  next
    case (Suc m)
    with Cons.prems p have "tiles b ps r" "m < length ps" "k < b" by auto
    from Cons.IH [OF this(1,2)] this(3) Suc show ?thesis by simp
  qed
qed

lemma tiles_cover:
  "tiles k ps r \<Longrightarrow> k \<le> i \<Longrightarrow> i < r \<Longrightarrow>
     \<exists>!n. n < length ps \<and> fst (ps ! n) \<le> i \<and> i < snd (ps ! n)"
proof (induction ps arbitrary: k)
  case Nil
  then show ?case by simp
next
  case (Cons p ps)
  obtain a b where p: "p = (a, b)" by (cases p)
  with Cons.prems have t: "a = k" "a < b" "tiles b ps r" by auto
  show ?case
  proof (cases "i < b")
    case True
    show ?thesis
    proof (rule ex1I [of _ 0])
      show "0 < length (p # ps) \<and> fst ((p # ps) ! 0) \<le> i \<and> i < snd ((p # ps) ! 0)"
        using p t True Cons.prems by simp
    next
      fix n
      assume n: "n < length (p # ps) \<and> fst ((p # ps) ! n) \<le> i \<and> i < snd ((p # ps) ! n)"
      show "n = 0"
      proof (cases n)
        case 0
        then show ?thesis .
      next
        case (Suc m)
        with n have "m < length ps" "fst (ps ! m) \<le> i" by auto
        with tiles_start_le [OF t(3) this(1)] True show ?thesis by simp
      qed
    qed
  next
    case False
    then have "b \<le> i" by simp
    from Cons.IH [OF t(3) this Cons.prems(3)]
    obtain m where m: "m < length ps \<and> fst (ps ! m) \<le> i \<and> i < snd (ps ! m)"
      and u: "\<And>m'. m' < length ps \<and> fst (ps ! m') \<le> i \<and> i < snd (ps ! m') \<Longrightarrow> m' = m"
      by blast
    show ?thesis
    proof (rule ex1I [of _ "Suc m"])
      show "Suc m < length (p # ps) \<and> fst ((p # ps) ! Suc m) \<le> i \<and> i < snd ((p # ps) ! Suc m)"
        using m by simp
    next
      fix n
      assume n: "n < length (p # ps) \<and> fst ((p # ps) ! n) \<le> i \<and> i < snd ((p # ps) ! n)"
      show "n = Suc m"
      proof (cases n)
        case 0
        with n p False show ?thesis by simp
      next
        case (Suc m')
        with n have "m' < length ps \<and> fst (ps ! m') \<le> i \<and> i < snd (ps ! m')" by simp
        from u [OF this] Suc show ?thesis by simp
      qed
    qed
  qed
qed

lemma Int_wrap_id:
  assumes "0 < w" and "- (2 ^ (w - 1)) \<le> x" and "x < 2 ^ (w - 1)"
  shows "Int_wrap w x = x"
proof -
  from assms(1) have "(2::int) ^ w = 2 * 2 ^ (w - 1)"
    by (cases w) simp_all
  with assms(2,3) have "0 \<le> x + 2 ^ (w - 1)" "x + 2 ^ (w - 1) < 2 ^ w" by simp_all
  then have "(x + 2 ^ (w - 1)) mod 2 ^ w = x + 2 ^ (w - 1)" by simp
  then show ?thesis by (simp add: Int_wrap_def)
qed

lemma Trr2k_inv_step:
  assumes w: "0 < w" and bs: "0 < bsize" and fits: "r + bsize < 2 ^ (w - 1)"
    and inv: "Trr2k_inv bsize r s" and c: "Trr2kNNTT_cond r s"
  shows "Trr2k_inv bsize r (Trr2kNNTT_body w bsize r s)
       \<and> nat (r - k_of (Trr2kNNTT_body w bsize r s)) < nat (r - k_of s)"
proof -
  let ?k = "k_of s"
  let ?nb = "min bsize (r - ?k)"
  from c have lt: "?k < r" by (simp add: Trr2kNNTT_cond_def)
  from inv lt have t: "tiles 0 (panels s) ?k"
    and sz: "\<forall>(a, b) \<in> set (panels s). b - a = min bsize (r - a)"
    by (simp_all add: Trr2k_inv_def min_def)
  from tiles_le [OF t] have k0: "0 \<le> ?k" .
  have low: "- (2 ^ (w - 1)) \<le> (0::int)" by simp
  have w1: "Int_wrap w (r - ?k) = r - ?k"
    by (rule Int_wrap_id [OF w]) (use k0 lt bs fits low in linarith)+
  have nb: "0 < ?nb" using bs lt by simp
  have up: "?k + ?nb \<le> r" by simp
  have w2: "Int_wrap w (?k + ?nb) = ?k + ?nb"
  proof (rule Int_wrap_id [OF w])
    from k0 nb low show "- (2 ^ (w - 1)) \<le> ?k + ?nb" by linarith
    from up bs fits show "?k + ?nb < 2 ^ (w - 1)" by linarith
  qed
  have w3: "Int_wrap w (?k + bsize) = ?k + bsize"
    by (rule Int_wrap_id [OF w]) (use k0 lt bs fits low in linarith)+
  have body: "Trr2kNNTT_body w bsize r s
      = \<lparr> k_of = ?k + bsize, panels = panels s @ [(?k, ?k + ?nb)] \<rparr>"
    by (simp add: Trr2kNNTT_body_def Let_def w1 w2 w3)
  have m: "min (?k + bsize) r = ?k + ?nb" using bs lt by (simp add: min_def)
  have "tiles ?k [(?k, ?k + ?nb)] (?k + ?nb)" using nb by simp
  with t have "tiles 0 (panels s @ [(?k, ?k + ?nb)]) (?k + ?nb)"
    unfolding tiles_append by blast
  with sz m show ?thesis
    unfolding body using bs lt by (auto simp: Trr2k_inv_def)
qed

text \<open>
  Where the additions wrap, the sweep goes astray.  With 32-bit \<open>Int\<close>, block size
  \<open>2^30\<close> and inner dimension \<open>2^31 - 1\<close> the counter runs through \<open>0, 2^30, -2^31,
  -2^30\<close> and back to \<open>0\<close>, always below \<open>r\<close>: the loop does not exit, whatever the fuel.
\<close>

lemma while_fuel_never:
  assumes inv: "\<And>s. P s \<Longrightarrow> c s \<and> P (b s)"
  shows "P s \<Longrightarrow> while_fuel f c b s = None"
proof (induction f arbitrary: s)
  case 0
  then show ?case by simp
next
  case (Suc f)
  from inv [OF Suc.prems] have "c s" "P (b s)" by simp_all
  with Suc.IH show ?case by simp
qed

lemma Trr2kNNTT_sweep_wraps_forever:
  "Trr2kNNTT_sweep 32 fuel 1073741824 2147483647 = None"
proof -
  let ?P = "\<lambda>s. k_of s \<in> {0, 1073741824, - 2147483648, - 1073741824}"
  have "while_fuel fuel (Trr2kNNTT_cond 2147483647) (Trr2kNNTT_body 32 1073741824 2147483647)
          \<lparr> k_of = 0, panels = [] \<rparr> = None"
  proof (rule while_fuel_never [where P = ?P])
    fix s :: Trr2k_state
    assume "k_of s \<in> {0, 1073741824, - 2147483648, - 1073741824}"
    then show "Trr2kNNTT_cond 2147483647 s
        \<and> k_of (Trr2kNNTT_body 32 1073741824 2147483647 s)
            \<in> {0, 1073741824, - 2147483648, - 1073741824}"
      by (auto simp: Trr2kNNTT_cond_def Trr2kNNTT_body_def Let_def Int_wrap_def)
  qed simp
  then show ?thesis by (simp add: Trr2kNNTT_sweep_def)
qed

text \<open>
  Claim C3, as first stated, fails there: the first two iterations cut \<open>[0, 2^30)\<close> and
  \<open>[2^30, 2^31 - 1)\<close>, which tile \<open>[0, r)\<close>, but the counter has wrapped to \<open>-2^31\<close>, the
  loop goes on, and the third iteration computes the block size \<open>-1\<close> and cuts the range
  from \<open>-2^31\<close> to \<open>2^31 - 1\<close>, which lies across the two before it.
\<close>

theorem Trr2kNNTT_sweep_overflow_counterexample:
  "(0::int) < 1073741824 \<and> (0::int) \<le> 2147483647
   \<and> Trr2kNNTT_cond 2147483647
        (Trr2kNNTT_body 32 1073741824 2147483647
          (Trr2kNNTT_body 32 1073741824 2147483647 \<lparr> k_of = 0, panels = [] \<rparr>))
   \<and> panels (Trr2kNNTT_body 32 1073741824 2147483647
        (Trr2kNNTT_body 32 1073741824 2147483647
          (Trr2kNNTT_body 32 1073741824 2147483647 \<lparr> k_of = 0, panels = [] \<rparr>)))
       = [(0, 1073741824), (1073741824, 2147483647), (- 2147483648, 2147483647)]
   \<and> min 1073741824 (Int_wrap 32 (2147483647 - (- 2147483648))) = - 1
   \<and> Trr2kNNTT_sweep 32 (Suc (nat 2147483647)) 1073741824 2147483647 = None"
proof -
  have "Trr2kNNTT_cond 2147483647
        (Trr2kNNTT_body 32 1073741824 2147483647
          (Trr2kNNTT_body 32 1073741824 2147483647 \<lparr> k_of = 0, panels = [] \<rparr>))"
    by (simp add: Trr2kNNTT_cond_def Trr2kNNTT_body_def Let_def Int_wrap_def)
  moreover have "panels (Trr2kNNTT_body 32 1073741824 2147483647
        (Trr2kNNTT_body 32 1073741824 2147483647
          (Trr2kNNTT_body 32 1073741824 2147483647 \<lparr> k_of = 0, panels = [] \<rparr>)))
       = [(0, 1073741824), (1073741824, 2147483647), (- 2147483648, 2147483647)]"
    by (simp add: Trr2kNNTT_body_def Let_def Int_wrap_def)
  moreover have "min 1073741824 (Int_wrap 32 (2147483647 - (- 2147483648))) = - 1"
    by (simp add: Int_wrap_def)
  moreover have "Trr2kNNTT_sweep 32 (Suc (nat 2147483647)) 1073741824 2147483647 = None"
    by (rule Trr2kNNTT_sweep_wraps_forever)
  ultimately show ?thesis by simp
qed

text \<open>
  Claim C3, as amended.  With a positive block size and an inner dimension \<open>r\<close> such that
  \<open>r + bsize\<close> does not exceed the largest \<open>Int\<close>, the sweep of \<open>Trr2kNNTT\<close> exits (fuel
  \<open>r + 1\<close> is enough), every iteration cuts the range \<open>[k, k + min bsize (r - k))\<close>, the
  ranges follow one another without gap or overlap from \<open>0\<close> to \<open>r\<close>, so each index of
  \<open>[0, r)\<close> lies in exactly one of them, and a last range shorter than the block size has
  exactly the remaining extent.
\<close>

theorem Trr2kNNTT_sweep_partition:
  assumes w: "0 < w" and bs: "0 < bsize" and r: "0 \<le> r" and fits: "r + bsize < 2 ^ (w - 1)"
  shows "\<exists>ps. Trr2kNNTT_sweep w (Suc (nat r)) bsize r = Some ps
           \<and> tiles 0 ps r
           \<and> (\<forall>(a, b) \<in> set ps. b - a = min bsize (r - a))
           \<and> (\<forall>i. 0 \<le> i \<and> i < r \<longrightarrow>
                 (\<exists>!n. n < length ps \<and> fst (ps ! n) \<le> i \<and> i < snd (ps ! n)))"
proof -
  let ?s0 = "\<lparr> k_of = 0, panels = [] \<rparr>"
  let ?c = "Trr2kNNTT_cond r" and ?b = "Trr2kNNTT_body w bsize r"
  have inv0: "Trr2k_inv bsize r ?s0" using r by (simp add: Trr2k_inv_def)
  have "\<exists>t. while_fuel (Suc (nat r)) ?c ?b ?s0 = Some t"
  proof (rule while_fuel_total [where P = "Trr2k_inv bsize r" and m = "\<lambda>s. nat (r - k_of s)"])
    show "Trr2k_inv bsize r ?s0" by (rule inv0)
    show "nat (r - k_of ?s0) < Suc (nat r)" by simp
  next
    fix s assume "Trr2k_inv bsize r s" "?c s"
    from Trr2k_inv_step [OF w bs fits this]
    show "Trr2k_inv bsize r (?b s) \<and> nat (r - k_of (?b s)) < nat (r - k_of s)" .
  qed
  then obtain t where wf: "while_fuel (Suc (nat r)) ?c ?b ?s0 = Some t" ..
  have "Trr2k_inv bsize r t \<and> \<not> ?c t"
  proof (rule while_fuel_rule [where P = "Trr2k_inv bsize r", OF wf inv0])
    fix s assume "Trr2k_inv bsize r s" "?c s"
    from Trr2k_inv_step [OF w bs fits this] show "Trr2k_inv bsize r (?b s)" by simp
  qed
  then have tm: "tiles 0 (panels t) (min (k_of t) r)"
    and sz: "\<forall>(a, b) \<in> set (panels t). b - a = min bsize (r - a)"
    and ge: "r \<le> k_of t"
    unfolding Trr2k_inv_def Trr2kNNTT_cond_def by auto
  from ge have "min (k_of t) r = r" by simp
  with tm have t: "tiles 0 (panels t) r" by simp
  have cov: "\<forall>i. 0 \<le> i \<and> i < r \<longrightarrow>
      (\<exists>!n. n < length (panels t) \<and> fst (panels t ! n) \<le> i \<and> i < snd (panels t ! n))"
    using tiles_cover [OF t] by blast
  from wf t sz cov show ?thesis by (simp add: Trr2kNNTT_sweep_def)
qed

text \<open>The theorem at 32-bit \<open>Int\<close>, block size 3 and inner dimension 7.\<close>

theorem Trr2kNNTT_sweep_partition_witness:
  "(0::nat) < 32 \<and> (0::int) < 3 \<and> (0::int) \<le> 7 \<and> (7::int) + 3 < 2 ^ (32 - 1)
   \<and> Trr2kNNTT_sweep 32 (Suc (nat 7)) 3 7 = Some [(0, 3), (3, 6), (6, 7)]
   \<and> (\<exists>ps. Trr2kNNTT_sweep 32 (Suc (nat 7)) 3 7 = Some ps
           \<and> tiles 0 ps 7
           \<and> (\<forall>(a, b) \<in> set ps. b - a = min 3 (7 - a))
           \<and> (\<forall>i. 0 \<le> i \<and> i < 7 \<longrightarrow>
                 (\<exists>!n. n < length ps \<and> fst (ps ! n) \<le> i \<and> i < snd (ps ! n))))"
proof -
  have a: "(0::nat) < 32" and b: "(0::int) < 3" and c: "(0::int) \<le> 7"
    and d: "(7::int) + 3 < 2 ^ (32 - 1)" by simp_all
  have e: "Trr2kNNTT_sweep 32 (Suc (nat 7)) 3 7 = Some [(0, 3), (3, 6), (6, 7)]"
    by code_simp
  from a b c d e Trr2kNNTT_sweep_partition [OF a b c d] show ?thesis by blast
qed

section \<open>TrsmLLN computes the sequential triangular solve\<close>

lemma View_simps [simp]:
  "Height (View A i j h w) = h"
  "Width (View A i j h w) = w"
  "Entry (View A i j h w) = (\<lambda>a b. Entry A (i + a) (j + b))"
  by (simp_all add: View_def)

lemma Assign_simps [simp]:
  "Height (Assign A i j B) = Height A"
  "Width (Assign A i j B) = Width A"
  "Entry (Assign A i j B) a b =
     (if i \<le> a \<and> a < i + Height B \<and> j \<le> b \<and> b < j + Width B
      then Entry B (a - i) (b - j) else Entry A a b)"
  by (simp_all add: Assign_def)

lemma Assign_GetGrid [simp]:
  "GetGrid (Assign (A :: 'a AbstractDistMatrix) i j B) = GetGrid A"
  by (simp add: Assign_def)

lemma Scal_simps [simp]:
  "Height (Scal alpha X) = Height X"
  "Width (Scal alpha X) = Width X"
  "Entry (Scal alpha X) i j =
     (if i < Height X \<and> j < Width X then alpha * Entry X i j else Entry X i j)"
  by (simp_all add: Scal_def)

lemma Scal_GetGrid [simp]:
  "GetGrid (Scal alpha (X :: 'a::times AbstractDistMatrix)) = GetGrid X"
  by (simp add: Scal_def)

lemma LocalTrsm_simps [simp]:
  "Height (LocalTrsm d alpha L X) = Height X"
  "Width (LocalTrsm d alpha L X) = Width X"
  "Entry (LocalTrsm d alpha L X) i j =
     (if i < Height X \<and> j < Width X
      then forward_subst d (Entry L) (\<lambda>a b. alpha * Entry X a b) i j else Entry X i j)"
  by (simp_all add: LocalTrsm_def)

lemma LocalGemm_simps [simp]:
  "Height (LocalGemm alpha A B beta C) = Height C"
  "Width (LocalGemm alpha A B beta C) = Width C"
  "Entry (LocalGemm alpha A B beta C) i j =
     (if i < Height C \<and> j < Width C
      then alpha * (\<Sum>m<Width A. Entry A i m * Entry B m j) + beta * Entry C i j
      else Entry C i j)"
  by (simp_all add: LocalGemm_def)

lemma sum_lessThan_add:
  fixes f :: "nat \<Rightarrow> 'a::comm_monoid_add"
  shows "(\<Sum>m<k + a. f m) = (\<Sum>m<k. f m) + (\<Sum>b<a. f (k + b))"
  by (induction a) (simp_all add: add.assoc)

lemma forward_subst_block:
  fixes L :: "nat \<Rightarrow> nat \<Rightarrow> 'a::field"
  assumes X1: "\<And>a. a < nb \<Longrightarrow>
      X1 a j = B (k + a) j - (\<Sum>m<k. L (k + a) m * forward_subst d L B m j)"
  shows "a < nb \<Longrightarrow>
      forward_subst d (\<lambda>a b. L (k + a) (k + b)) X1 a j
        = forward_subst d L B (k + a) j"
proof (induction a rule: less_induct)
  case (less a)
  have ih: "\<And>b. b < a \<Longrightarrow>
      forward_subst d (\<lambda>a b. L (k + a) (k + b)) X1 b j
        = forward_subst d L B (k + b) j"
    using less by simp
  have "forward_subst d (\<lambda>a b. L (k + a) (k + b)) X1 a j
      = (X1 a j - (\<Sum>b<a. L (k + a) (k + b)
            * forward_subst d (\<lambda>a b. L (k + a) (k + b)) X1 b j))
        / (if d = Unit then 1 else L (k + a) (k + a))"
    by (subst forward_subst.simps) simp
  also have "(\<Sum>b<a. L (k + a) (k + b)
            * forward_subst d (\<lambda>a b. L (k + a) (k + b)) X1 b j)
      = (\<Sum>b<a. L (k + a) (k + b) * forward_subst d L B (k + b) j)"
    by (rule sum.cong) (simp_all add: ih)
  also have "X1 a j - (\<Sum>b<a. L (k + a) (k + b) * forward_subst d L B (k + b) j)
      = B (k + a) j - (\<Sum>m<k + a. L (k + a) m * forward_subst d L B m j)"
    by (simp add: X1 [OF less.prems] sum_lessThan_add)
  also have "(B (k + a) j - (\<Sum>m<k + a. L (k + a) m * forward_subst d L B m j))
        / (if d = Unit then 1 else L (k + a) (k + a))
      = forward_subst d L B (k + a) j"
    by (subst (2) forward_subst.simps) simp
  finally show ?case .
qed

lemma TrsmLLN_inv_step:
  fixes L :: "'a::field AbstractDistMatrix"
  assumes bs: "0 < blocksize"
    and conf: "Height L = Height X"
    and inv: "TrsmLLN_inv diagonal L X B s"
    and c: "TrsmLLN_cond s"
  shows "TrsmLLN_inv diagonal L X B (TrsmLLN_body blocksize diagonal L s)
       \<and> Height X - boundary (TrsmLLN_body blocksize diagonal L s) < Height X - boundary s"
proof -
  define k where "k = boundary s"
  define Xs where "Xs = X_of s"
  define n where "n = Height X"
  define w where "w = Width X"
  define nb where "nb = min blocksize (n - k)"
  define Y where "Y = forward_subst diagonal (Entry L) B"
  define X1T where "X1T = LocalTrsm diagonal 1 (View L k k nb nb) (View Xs k 0 nb w)"
  define X' where "X' = Assign Xs k 0 X1T"
  define X2' where "X2' = LocalGemm (- 1) (View L (k + nb) k (n - (k + nb)) nb) X1T 1
                            (View X' (k + nb) 0 (n - (k + nb)) w)"
  define X'' where "X'' = Assign X' (k + nb) 0 X2'"
  from inv have kn: "k \<le> n" and hX: "Height Xs = n" and wX: "Width Xs = w"
    and gX: "GetGrid Xs = GetGrid X"
    and ent: "\<And>i j. i < n \<Longrightarrow> j < w \<Longrightarrow>
        Entry Xs i j = (if i < k then Y i j else B i j - (\<Sum>m<k. Entry L i m * Y m j))"
    by (simp_all add: TrsmLLN_inv_def k_def Xs_def n_def w_def Y_def)
  from c hX have lt: "k < n" by (simp add: TrsmLLN_cond_def k_def Xs_def)
  with bs have nb0: "0 < nb" and nbn: "k + nb \<le> n" by (simp_all add: nb_def)
  have body: "TrsmLLN_body blocksize diagonal L s
      = \<lparr> boundary = k + nb, X_of = X'',
          comm_log = comm_log s @
             [Redistribution (Star, Star) (MC, MR) nb nb,
              Redistribution (Star, VR) (MC, MR) nb w,
              Redistribution (Star, MR) (Star, VR) nb w,
              Redistribution (MC, MR) (Star, MR) nb w,
              Redistribution (MC, Star) (MC, MR) (n - (k + nb)) nb] \<rparr>"
    by (simp add: TrsmLLN_body_def Let_def k_def [symmetric] Xs_def [symmetric] hX wX
        nb_def [symmetric] conf n_def [symmetric] X1T_def [symmetric] X'_def [symmetric]
        X2'_def [symmetric] X''_def [symmetric])
  have X1T: "Entry X1T a j = Y (k + a) j" if "a < nb" "j < w" for a j
  proof -
    have "forward_subst diagonal (\<lambda>a b. Entry L (k + a) (k + b)) (\<lambda>a b. Entry Xs (k + a) b) a j
        = forward_subst diagonal (Entry L) B (k + a) j"
    proof (rule forward_subst_block [where nb = nb])
      fix a assume "a < nb"
      with nbn that(2) show "Entry Xs (k + a) j
          = B (k + a) j - (\<Sum>m<k. Entry L (k + a) m * forward_subst diagonal (Entry L) B m j)"
        by (simp add: ent Y_def)
    qed (rule that(1))
    with that show ?thesis by (simp add: X1T_def Y_def)
  qed
  have mid: "Entry X'' i j = Y i j" if "k \<le> i" "i < k + nb" "j < w" for i j
  proof -
    from that have "i - k < nb" by simp
    from X1T [OF this that(3)] that show ?thesis
      by (simp add: X''_def X'_def X1T_def X2'_def)
  qed
  have top: "Entry X'' i j = Y i j" if "i < k" "j < w" for i j
    using that kn ent [of i j] by (simp add: X''_def X'_def X1T_def X2'_def)
  have bot: "Entry X'' i j = B i j - (\<Sum>m<k + nb. Entry L i m * Y m j)"
    if "k + nb \<le> i" "i < n" "j < w" for i j
  proof -
    from that have ar: "i - (k + nb) < n - (k + nb)" "k + nb + (i - (k + nb)) = i" by simp_all
    have "Entry X'' i j = Entry X2' (i - (k + nb)) j"
      using that by (simp add: X''_def X2'_def)
    also have "\<dots> = - (\<Sum>m<nb. Entry L i (k + m) * Entry X1T m j) + Entry X' i j"
      using that ar by (simp add: X2'_def)
    also have "(\<Sum>m<nb. Entry L i (k + m) * Entry X1T m j) = (\<Sum>m<nb. Entry L i (k + m) * Y (k + m) j)"
      by (rule sum.cong) (simp_all add: X1T that(3))
    also have "Entry X' i j = Entry Xs i j"
      using that by (simp add: X'_def X1T_def)
    also have "\<dots> = B i j - (\<Sum>m<k. Entry L i m * Y m j)"
      using that ent [of i j] by simp
    finally show ?thesis by (simp add: sum_lessThan_add)
  qed
  have "TrsmLLN_inv diagonal L X B \<lparr> boundary = k + nb, X_of = X'', comm_log = cl \<rparr>" for cl
    unfolding TrsmLLN_inv_def
  proof (intro conjI allI impI)
    show "boundary \<lparr> boundary = k + nb, X_of = X'', comm_log = cl \<rparr> \<le> Height X"
      using nbn by (simp add: n_def)
    show "Height (X_of \<lparr> boundary = k + nb, X_of = X'', comm_log = cl \<rparr>) = Height X"
      by (simp add: X''_def X'_def hX n_def)
    show "Width (X_of \<lparr> boundary = k + nb, X_of = X'', comm_log = cl \<rparr>) = Width X"
      by (simp add: X''_def X'_def wX w_def)
    show "GetGrid (X_of \<lparr> boundary = k + nb, X_of = X'', comm_log = cl \<rparr>) = GetGrid X"
      by (simp add: X''_def X'_def gX)
  next
    fix i j assume ij: "i < Height X" "j < Width X"
    consider "i < k" | "k \<le> i" "i < k + nb" | "k + nb \<le> i" by linarith
    then show "Entry (X_of \<lparr> boundary = k + nb, X_of = X'', comm_log = cl \<rparr>) i j =
         (if i < boundary \<lparr> boundary = k + nb, X_of = X'', comm_log = cl \<rparr>
          then forward_subst diagonal (Entry L) B i j
          else B i j - (\<Sum>m<boundary \<lparr> boundary = k + nb, X_of = X'', comm_log = cl \<rparr>.
                 Entry L i m * forward_subst diagonal (Entry L) B m j))"
    proof cases
      case 1
      with top [of i j] ij show ?thesis by (simp add: w_def Y_def)
    next
      case 2
      with mid [of i j] ij show ?thesis by (simp add: w_def Y_def)
    next
      case 3
      with bot [of i j] ij show ?thesis by (simp add: w_def n_def Y_def)
    qed
  qed
  with body nb0 lt show ?thesis by (simp add: k_def n_def)
qed


lemma forward_subst_solves:
  fixes L :: "nat \<Rightarrow> nat \<Rightarrow> 'a::field"
  assumes "d = NonUnit \<Longrightarrow> L i i \<noteq> 0"
  shows "(\<Sum>m<i. L i m * forward_subst d L B m j)
           + (if d = Unit then 1 else L i i) * forward_subst d L B i j = B i j"
proof -
  have nz: "(if d = Unit then 1 else L i i) \<noteq> 0"
    using assms by (cases d) simp_all
  have "(if d = Unit then 1 else L i i) * forward_subst d L B i j
      = B i j - (\<Sum>m<i. L i m * forward_subst d L B m j)"
    by (subst forward_subst.simps) (use nz in simp)
  then show ?thesis by simp
qed

lemma tril_row_sum:
  fixes L :: "'a::field AbstractDistMatrix"
  assumes "i < n"
  shows "(\<Sum>m<n. Entry (tril d L) i m * Y m)
       = (\<Sum>m<i. Entry L i m * Y m) + (if d = Unit then 1 else Entry L i i) * Y i"
proof -
  have split: "{..<n} = {..<i} \<union> ({i} \<union> {i<..<n})" using assms by auto
  have "(\<Sum>m<n. Entry (tril d L) i m * Y m)
      = (\<Sum>m\<in>{..<i}. Entry (tril d L) i m * Y m)
        + ((\<Sum>m\<in>{i}. Entry (tril d L) i m * Y m) + (\<Sum>m\<in>{i<..<n}. Entry (tril d L) i m * Y m))"
    unfolding split by (subst sum.union_disjoint; (subst sum.union_disjoint)?; auto)
  also have "(\<Sum>m\<in>{..<i}. Entry (tril d L) i m * Y m) = (\<Sum>m<i. Entry L i m * Y m)"
    by (rule sum.cong) (simp_all add: tril_def)
  also have "(\<Sum>m\<in>{i<..<n}. Entry (tril d L) i m * Y m) = 0"
    by (rule sum.neutral) (simp add: tril_def)
  finally show ?thesis by (simp add: tril_def)
qed

text \<open>
  Claim C1.  For a square \<open>L\<close> and a conforming \<open>X\<close> on the same grid, every scalar
  \<open>alpha\<close>, either diagonal option and every block size of at least one (so also 1, a
  prime, or more than the extent), the blocked \<open>TrsmLLN\<close> returns without throwing once
  the fuel exceeds the height of \<open>X\<close>, keeps the extents of \<open>X\<close>, and leaves in \<open>X\<close>
  exactly the entries that the sequential triangular solve computes from the whole of
  \<open>L\<close> and \<open>X\<close>, in exact arithmetic (any field).  When the diagonal read by the solve has
  no zero, that result \<open>Y\<close> satisfies \<open>tril(L) Y = alpha X\<close> (\<open>trilu(L)\<close> under \<open>Unit\<close>),
  that is, \<open>Y = alpha tril(L)^-1 X\<close>.
\<close>

theorem TrsmLLN_blocked_equals_sequential:
  fixes L X :: "'a::field AbstractDistMatrix"
  assumes grid: "GetGrid L = GetGrid X"
    and square: "Height L = Width L"
    and conf: "Width L = Height X"
    and bs: "0 < blocksize"
    and fuel: "Height X < fuel"
  shows "\<exists>r. TrsmLLN release blocksize fuel diagonal alpha L X = Some r
           \<and> thrown r = None
           \<and> Height (X_of (final r)) = Height X \<and> Width (X_of (final r)) = Width X
           \<and> (\<forall>i<Height X. \<forall>j<Width X.
                 Entry (X_of (final r)) i j = Entry (LocalTrsm diagonal alpha L X) i j)
           \<and> ((diagonal = NonUnit \<longrightarrow> (\<forall>i<Height L. Entry L i i \<noteq> 0)) \<longrightarrow>
                (\<forall>i<Height X. \<forall>j<Width X.
                   (\<Sum>m<Width L. Entry (tril diagonal L) i m * Entry (X_of (final r)) m j)
                     = alpha * Entry X i j))"
proof -
  define B where "B = (\<lambda>a b. alpha * Entry X a b)"
  define Y where "Y = forward_subst diagonal (Entry L) B"
  let ?s0 = "\<lparr> boundary = 0, X_of = Scal alpha X, comm_log = [] \<rparr>"
  let ?b = "TrsmLLN_body blocksize diagonal L"
  let ?P = "TrsmLLN_inv diagonal L X B"
  from square conf have hL: "Height L = Height X" by simp
  have chk: "TrsmLLN_check release L X = None"
    using grid square conf by (simp add: TrsmLLN_check_def)
  have inv0: "?P ?s0" by (simp add: TrsmLLN_inv_def B_def)
  have step: "?P (?b s) \<and> Height X - boundary (?b s) < Height X - boundary s"
    if "?P s" "TrsmLLN_cond s" for s
    using TrsmLLN_inv_step [OF bs hL that] .
  have "\<exists>t. while_fuel fuel TrsmLLN_cond ?b ?s0 = Some t"
    by (rule while_fuel_total [where P = ?P and m = "\<lambda>s. Height X - boundary s"])
       (use step inv0 fuel in auto)
  then obtain t where w: "while_fuel fuel TrsmLLN_cond ?b ?s0 = Some t" ..
  have "?P t \<and> \<not> TrsmLLN_cond t"
    by (rule while_fuel_rule [where P = ?P, OF w inv0]) (use step in blast)
  then have bt: "boundary t = Height X" and ht: "Height (X_of t) = Height X"
    and wt: "Width (X_of t) = Width X"
    and et: "\<And>i j. i < Height X \<Longrightarrow> j < Width X \<Longrightarrow> Entry (X_of t) i j = Y i j"
    by (auto simp: TrsmLLN_inv_def TrsmLLN_cond_def Y_def)
  have run: "TrsmLLN release blocksize fuel diagonal alpha L X
      = Some \<lparr> thrown = None, final = t \<rparr>"
    by (simp add: TrsmLLN_def chk w)
  have ref: "Entry (X_of t) i j = Entry (LocalTrsm diagonal alpha L X) i j"
    if "i < Height X" "j < Width X" for i j
    using that et [OF that] by (simp add: Y_def B_def)
  have sol: "(\<Sum>m<Width L. Entry (tril diagonal L) i m * Entry (X_of t) m j) = alpha * Entry X i j"
    if nz: "diagonal = NonUnit \<longrightarrow> (\<forall>i<Height L. Entry L i i \<noteq> 0)"
      and ij: "i < Height X" "j < Width X" for i j
  proof -
    have "(\<Sum>m<Width L. Entry (tril diagonal L) i m * Entry (X_of t) m j)
        = (\<Sum>m<Width L. Entry (tril diagonal L) i m * Y m j)"
      by (rule sum.cong) (simp_all add: et conf ij)
    also have "\<dots> = (\<Sum>m<i. Entry L i m * Y m j)
          + (if diagonal = Unit then 1 else Entry L i i) * Y i j"
      by (rule tril_row_sum) (use ij conf in simp)
    also have "\<dots> = B i j"
      unfolding Y_def by (rule forward_subst_solves) (use nz ij hL in simp)
    finally show ?thesis by (simp add: B_def)
  qed
  show ?thesis
    by (rule exI [of _ "\<lparr> thrown = None, final = t \<rparr>"]) (use run ht wt ref sol in simp)
qed

text \<open>The theorem at the 3 x 3 instance with block size 2, and the entries the sweep leaves there.\<close>

theorem TrsmLLN_blocked_equals_sequential_witness:
  "\<exists>r. TrsmLLN False 2 4 NonUnit 2 L_ex X_ex = Some r
      \<and> thrown r = None
      \<and> (\<forall>i<3. \<forall>j<2. Entry (X_of (final r)) i j = Entry (LocalTrsm NonUnit 2 L_ex X_ex) i j)
      \<and> (\<forall>i<3. \<forall>j<2. (\<Sum>m<3. Entry (tril NonUnit L_ex) i m * Entry (X_of (final r)) m j)
                           = 2 * Entry X_ex i j)"
proof -
  have nz: "\<forall>i<Height L_ex. Entry L_ex i i \<noteq> 0"
    by (simp add: L_ex_def of_nat_eq_0_iff del: of_nat_add of_nat_mult of_nat_Suc)
  have "GetGrid L_ex = GetGrid X_ex" "Height L_ex = Width L_ex" "Width L_ex = Height X_ex"
       "(0::nat) < 2" "Height X_ex < 4"
    by (simp_all add: L_ex_def X_ex_def)
  from TrsmLLN_blocked_equals_sequential [OF this, of False NonUnit 2] nz
  obtain r where r: "TrsmLLN False 2 4 NonUnit 2 L_ex X_ex = Some r" "thrown r = None"
      "\<forall>i<Height X_ex. \<forall>j<Width X_ex.
         Entry (X_of (final r)) i j = Entry (LocalTrsm NonUnit 2 L_ex X_ex) i j"
      "\<forall>i<Height X_ex. \<forall>j<Width X_ex.
         (\<Sum>m<Width L_ex. Entry (tril NonUnit L_ex) i m * Entry (X_of (final r)) m j)
           = 2 * Entry X_ex i j"
    by blast
  have dims: "Height X_ex = 3" "Width X_ex = 2" "Width L_ex = 3"
    by (simp_all add: L_ex_def X_ex_def)
  from r show ?thesis unfolding dims by blast
qed

lemma TrsmLLN_ex_value:
  "map_option (\<lambda>r. map (\<lambda>i. map (Entry (X_of (final r)) i) [0..<2]) [0..<3]) (TrsmLLN False 2 4 NonUnit 2 L_ex X_ex) = Some [[2, 4], [0, - (1 / 2)], [4 / 7, 5 / 14]]"
  by code_simp

section \<open>Conformance checks of TrsmLLN and TrmmRLT\<close>

lemma Scal_empty:
  "Height X = 0 \<or> Width X = 0 \<Longrightarrow> Scal alpha X = X"
  by (auto simp: Scal_def)


lemma while_fuel_exit: "\<not> c s \<Longrightarrow> 0 < f \<Longrightarrow> while_fuel f c b s = Some s"
  by (cases f) simp_all




section \<open>Empty operands\<close>

text \<open>
  The sweeps on empty operands.  An operand \<open>X\<close> of height 0 (with the conforming 0 x 0
  factor on the same grid) is legal input for \<open>TrsmLLN\<close>, in a debug and in a release build
  and whatever the block size: the sweep makes no iteration, nothing is thrown, the
  communication log is empty and \<open>X\<close> is returned as it was.  The same holds for \<open>TrmmRLT\<close>
  (called with a transposing orientation, as its check demands), for the real \<open>TridiagL\<close>
  and for the sweep of \<open>Trr2kNNTT\<close> over an empty inner dimension.
\<close>

lemma empty_sweeps_are_noops:
  fixes L X :: "'a::field AbstractDistMatrix"
  assumes hX: "Height X = 0"
    and hL: "Height L = 0" and wL: "Width L = 0"
    and grid: "GetGrid L = GetGrid X"
    and fuel: "0 < fuel"
  shows "TrsmLLN release blocksize fuel diagonal alpha L X
           = Some \<lparr> thrown = None, final = \<lparr> boundary = 0, X_of = X, comm_log = [] \<rparr> \<rparr>
       \<and> (Width X = 0 \<and> (release \<or> orientation \<noteq> Normal) \<longrightarrow>
            TrmmRLT release blocksize fuel conjugate orientation diagonal alpha L X
              = Some \<lparr> thrown = None, final = \<lparr> boundary = 0, X_of = X, comm_log = [] \<rparr> \<rparr>)
       \<and> (Width X = 0 \<longrightarrow> TridiagL release blocksize fuel X = Some (None, []))
       \<and> Trr2kNNTT_sweep w fuel bsize 0 = Some []"
proof (intro conjI impI)
  have sc: "Scal alpha X = X" by (rule Scal_empty) (simp add: hX)
  have chk: "TrsmLLN_check release L X = None"
    using hX hL wL grid by (simp add: TrsmLLN_check_def)
  have "while_fuel fuel TrsmLLN_cond (TrsmLLN_body blocksize diagonal L)
          \<lparr> boundary = 0, X_of = X, comm_log = [] \<rparr>
        = Some \<lparr> boundary = 0, X_of = X, comm_log = [] \<rparr>"
    by (rule while_fuel_exit) (simp_all add: TrsmLLN_cond_def hX fuel)
  then show "TrsmLLN release blocksize fuel diagonal alpha L X
      = Some \<lparr> thrown = None, final = \<lparr> boundary = 0, X_of = X, comm_log = [] \<rparr> \<rparr>"
    by (simp add: TrsmLLN_def chk sc)
next
  assume a: "Width X = 0 \<and> (release \<or> orientation \<noteq> Normal)"
  have sc: "Scal alpha X = X" by (rule Scal_empty) (simp add: hX)
  have chk: "TrmmRLT_check release orientation L X = None"
    using a hL wL grid by (auto simp: TrmmRLT_check_def)
  have "while_fuel fuel TrmmRLT_cond (TrmmRLT_body blocksize conjugate orientation diagonal L)
          \<lparr> boundary = 0, X_of = X, comm_log = [] \<rparr>
        = Some \<lparr> boundary = 0, X_of = X, comm_log = [] \<rparr>"
    by (rule while_fuel_exit) (simp_all add: TrmmRLT_cond_def fuel)
  then show "TrmmRLT release blocksize fuel conjugate orientation diagonal alpha L X
      = Some \<lparr> thrown = None, final = \<lparr> boundary = 0, X_of = X, comm_log = [] \<rparr> \<rparr>"
    using a by (simp add: TrmmRLT_def chk sc)
next
  assume "Width X = 0"
  moreover have "while_fuel fuel (TridiagL_cond 0) (TridiagL_body RealScalar blocksize 0)
          \<lparr> ATL_of = 0, iterations = [] \<rparr> = Some \<lparr> ATL_of = 0, iterations = [] \<rparr>"
    by (rule while_fuel_exit) (simp_all add: TridiagL_cond_def fuel)
  ultimately show "TridiagL release blocksize fuel X = Some (None, [])"
    by (simp add: TridiagL_def TridiagL_sweep_def hX)
next
  have "while_fuel fuel (Trr2kNNTT_cond 0) (Trr2kNNTT_body w bsize 0) \<lparr> k_of = 0, panels = [] \<rparr>
        = Some \<lparr> k_of = 0, panels = [] \<rparr>"
    by (rule while_fuel_exit) (simp_all add: Trr2kNNTT_cond_def fuel)
  then show "Trr2kNNTT_sweep w fuel bsize 0 = Some []"
    by (simp add: Trr2kNNTT_sweep_def)
qed

text \<open>
  The part of the complex \<open>TridiagL\<close> before its sweep is the beginning of the routine:
  the routine throws what that part throws, and runs its sweep otherwise.
\<close>

lemma TridiagL_complex_prelude_agrees:
  "TridiagL_complex release ResizeTo blocksize fuel A t
     = (case TridiagL_complex_prelude release ResizeTo A t of
          Inl e \<Rightarrow> Some (Some e, [])
        | Inr t' \<Rightarrow> map_option (\<lambda>its. (None, its))
                     (TridiagL_sweep ComplexScalar blocksize fuel (Height A)))"
  by (simp add: TridiagL_complex_def TridiagL_complex_prelude_def split: option.splits)

text \<open>
  Claim C8.  Not every panel routine is a no-op on a 0 x 0 matrix.  The complex overload of
  \<open>TridiagL\<close> calls \<open>t.ResizeTo( A.Height()-1, 1 )\<close> before its sweep (line 118), with no
  guard for \<open>A.Height() = 0\<close>: on the empty matrix, with \<open>t\<close> on the same grid, not a view
  and not constrained, it asks for \<open>t\<close> to have height \<open>-1\<close>.  Whatever \<open>ResizeTo\<close> does with
  that request, in a debug and in a release build, the routine either throws its exception
  or goes on with \<open>t\<close> of height \<open>-1\<close> and width 1, where it had height 0 and width 0.  The
  real overload, which has no \<open>t\<close>, does nothing on the same matrix.
\<close>

theorem TridiagL_complex_empty_resizes_t:
  "TridiagL_complex_prelude release ResizeTo A_empty t_ex
     = (case ResizeTo (- 1) 1 of
          Some e \<Rightarrow> Inl e
        | None \<Rightarrow> Inr \<lparr> t_GetGrid = grid_ex, t_Viewing = False, t_ConstrainedColAlignment = False,
                        t_Height = - 1, t_Width = 1 \<rparr>)
   \<and> TridiagL_complex release ResizeTo blocksize (Suc fuel) A_empty t_ex
     = (case ResizeTo (- 1) 1 of Some e \<Rightarrow> Some (Some e, []) | None \<Rightarrow> Some (None, []))
   \<and> t_Height t_ex = 0 \<and> t_Width t_ex = 0
   \<and> TridiagL release blocksize (Suc fuel) A_empty = Some (None, [])"
proof (intro conjI)
  have sw: "TridiagL_sweep kind blocksize (Suc fuel) 0 = Some []" for kind
    by (simp add: TridiagL_sweep_def TridiagL_cond_def)
  show "TridiagL_complex_prelude release ResizeTo A_empty t_ex
     = (case ResizeTo (- 1) 1 of
          Some e \<Rightarrow> Inl e
        | None \<Rightarrow> Inr \<lparr> t_GetGrid = grid_ex, t_Viewing = False, t_ConstrainedColAlignment = False,
                        t_Height = - 1, t_Width = 1 \<rparr>)"
    by (simp add: TridiagL_complex_prelude_def A_empty_def t_ex_def split: option.splits)
  show "TridiagL_complex release ResizeTo blocksize (Suc fuel) A_empty t_ex
     = (case ResizeTo (- 1) 1 of Some e \<Rightarrow> Some (Some e, []) | None \<Rightarrow> Some (None, []))"
    using sw [of ComplexScalar]
    by (simp add: TridiagL_complex_def A_empty_def t_ex_def split: option.splits)
  show "t_Height t_ex = 0" "t_Width t_ex = 0" by (simp_all add: t_ex_def)
  show "TridiagL release blocksize (Suc fuel) A_empty = Some (None, [])"
    using sw [of RealScalar] by (simp add: TridiagL_def A_empty_def)
qed

section \<open>The two branches of the TridiagL sweep\<close>

lemma TridiagL_inv_step:
  assumes bs: "0 < blocksize"
    and inv: "TridiagL_inv kind blocksize n s"
    and c: "TridiagL_cond n s"
  shows "TridiagL_inv kind blocksize n (TridiagL_body kind blocksize n s)
       \<and> n - ATL_of (TridiagL_body kind blocksize n s) < n - ATL_of s"
proof -
  define k where "k = ATL_of s"
  define nb where "nb = min blocksize (n - k)"
  define rest where "rest = n - k - nb"
  define performed where
    "performed = (if rest > 0 then panel_branch kind nb rest else local_branch kind nb)"
  define it where
    "it = \<lparr> ATL_Height = k, A11_Height = nb, A22_Height = rest, ops = performed \<rparr>"
  from c have lt: "k < n" by (simp add: TridiagL_cond_def k_def)
  with bs have nb0: "0 < nb" and nbn: "k + nb \<le> n" by (simp_all add: nb_def)
  have rest_nb: "nb + rest = n - k" using nbn by (simp add: rest_def)
  have body: "TridiagL_body kind blocksize n s
      = \<lparr> ATL_of = k + nb, iterations = iterations s @ [it] \<rparr>"
    using nbn
    by (cases kind)
       (auto simp: TridiagL_body_def Let_def k_def nb_def rest_def it_def performed_def
          panel_branch_def local_branch_def)
  have ok: "iteration_ok kind blocksize n it"
    using lt by (simp add: iteration_ok_def it_def performed_def nb_def rest_def)
  from inv have old_ok: "\<forall>it \<in> set (iterations s). iteration_ok kind blocksize n it"
    and old_pos: "\<forall>i<length (iterations s). A22_Height (iterations s ! i) \<noteq> 0"
    using lt by (auto simp: TridiagL_inv_def k_def)
  have zero_last: "Suc i = length (iterations s @ [it]) \<and> k + nb = n"
    if "i < length (iterations s @ [it])" "A22_Height ((iterations s @ [it]) ! i) = 0" for i
  proof (cases "i < length (iterations s)")
    case True
    with that(2) old_pos show ?thesis by (simp add: nth_append)
  next
    case False
    with that have "i = length (iterations s)" "rest = 0" by (simp_all add: nth_append it_def)
    with nbn show ?thesis by (simp add: rest_def)
  qed
  have last_zero: "A22_Height (last (iterations s @ [it])) = 0" if "k + nb = n"
    using that by (simp add: it_def rest_def)
  have "TridiagL_inv kind blocksize n \<lparr> ATL_of = k + nb, iterations = iterations s @ [it] \<rparr>"
    unfolding TridiagL_inv_def
  proof (intro conjI)
    show "ATL_of \<lparr> ATL_of = k + nb, iterations = iterations s @ [it] \<rparr> \<le> n"
      using nbn by simp
    show "\<forall>it \<in> set (iterations \<lparr> ATL_of = k + nb, iterations = iterations s @ [it] \<rparr>).
            iteration_ok kind blocksize n it"
      using ok old_ok by simp
    show "\<forall>i<length (iterations \<lparr> ATL_of = k + nb, iterations = iterations s @ [it] \<rparr>).
            A22_Height (iterations \<lparr> ATL_of = k + nb, iterations = iterations s @ [it] \<rparr> ! i) = 0 \<longrightarrow>
            Suc i = length (iterations \<lparr> ATL_of = k + nb, iterations = iterations s @ [it] \<rparr>)
            \<and> ATL_of \<lparr> ATL_of = k + nb, iterations = iterations s @ [it] \<rparr> = n"
      using zero_last by simp
    show "ATL_of \<lparr> ATL_of = k + nb, iterations = iterations s @ [it] \<rparr> = n
            \<and> iterations \<lparr> ATL_of = k + nb, iterations = iterations s @ [it] \<rparr> \<noteq> [] \<longrightarrow>
          A22_Height (last (iterations \<lparr> ATL_of = k + nb, iterations = iterations s @ [it] \<rparr>)) = 0"
      using last_zero by simp
  qed
  with body nb0 lt show ?thesis by (simp add: k_def)
qed

lemma TridiagL_sweep_branches:
  assumes bs: "0 < blocksize" and fuel: "n < fuel"
  shows "\<exists>its. TridiagL_sweep kind blocksize fuel n = Some its \<and> branches_ok kind blocksize n its"
proof -
  let ?s0 = "\<lparr> ATL_of = 0, iterations = [] \<rparr>"
  let ?c = "TridiagL_cond n" and ?b = "TridiagL_body kind blocksize n"
  let ?P = "TridiagL_inv kind blocksize n"
  have inv0: "?P ?s0" by (simp add: TridiagL_inv_def)
  have step: "?P (?b s) \<and> n - ATL_of (?b s) < n - ATL_of s" if "?P s" "?c s" for s
    using TridiagL_inv_step [OF bs that] .
  have "\<exists>t. while_fuel fuel ?c ?b ?s0 = Some t"
    by (rule while_fuel_total [where P = ?P and m = "\<lambda>s. n - ATL_of s"])
       (use step inv0 fuel in auto)
  then obtain t where w: "while_fuel fuel ?c ?b ?s0 = Some t" ..
  have "?P t \<and> \<not> ?c t"
    by (rule while_fuel_rule [where P = ?P, OF w inv0]) (use step in blast)
  then have at: "ATL_of t = n"
    and ok: "\<forall>it \<in> set (iterations t). iteration_ok kind blocksize n it"
    and z: "\<forall>i<length (iterations t). A22_Height (iterations t ! i) = 0 \<longrightarrow>
              Suc i = length (iterations t)"
    and l: "iterations t \<noteq> [] \<longrightarrow> A22_Height (last (iterations t)) = 0"
    by (auto simp: TridiagL_inv_def TridiagL_cond_def)
  have run: "TridiagL_sweep kind blocksize fuel n = Some (iterations t)"
    by (simp add: TridiagL_sweep_def w)
  have br: "A11_Height it = min blocksize (n - ATL_Height it)
          \<and> A22_Height it = n - ATL_Height it - A11_Height it
          \<and> (A22_Height it = 0 \<longrightarrow> ops it = local_branch kind (A11_Height it))
          \<and> (A22_Height it > 0 \<longrightarrow> ops it = panel_branch kind (A11_Height it) (A22_Height it))"
    if "it \<in> set (iterations t)" for it
    using ok that by (auto simp: iteration_ok_def)
  have lastiff: "(A22_Height (iterations t ! i) = 0) = (Suc i = length (iterations t))"
    if "i < length (iterations t)" for i
  proof
    assume "A22_Height (iterations t ! i) = 0"
    with z that show "Suc i = length (iterations t)" by blast
  next
    assume e: "Suc i = length (iterations t)"
    then have "iterations t \<noteq> []" by auto
    moreover from e have "length (iterations t) - Suc 0 = i" by simp
    with \<open>iterations t \<noteq> []\<close> have "last (iterations t) = iterations t ! i"
      by (simp add: last_conv_nth)
    ultimately show "A22_Height (iterations t ! i) = 0" using l by simp
  qed
  from br lastiff have "branches_ok kind blocksize n (iterations t)"
    unfolding branches_ok_def by blast
  with run show ?thesis by blast
qed

text \<open>
  Claim C5.  With a positive block size, the sweep of \<open>TridiagL\<close> over a square matrix
  exits, in the real and in the complex overload, and in every iteration: when the
  trailing block \<open>A22\<close> is empty, the diagonal block \<open>A11\<close> is copied into a \<open>[*,*]\<close>
  matrix, reduced by the local \<open>Tridiag\<close> kernel and copied back, and neither the panel
  step nor the rank-2k update is performed; when \<open>A22\<close> is not empty, the panel
  tridiagonalization of \<open>ABR\<close> is followed by the rank-2k update of \<open>A22\<close>, \<open>Syr2k\<close> for
  real and \<open>Her2k\<close> for complex scalars.  The trailing block is empty in the last
  iteration and in no other.
\<close>

theorem TridiagL_branches:
  assumes bs: "0 < blocksize"
    and sq: "Height A = Width A"
    and fuel: "Height A < fuel"
  shows "(\<exists>its. TridiagL release blocksize fuel A = Some (None, its)
            \<and> branches_ok RealScalar blocksize (Height A) its)
       \<and> (GetGrid A = t_GetGrid t \<and> \<not> t_Viewing t \<and> \<not> t_ConstrainedColAlignment t
            \<and> ResizeTo (int (Height A) - 1) 1 = None \<longrightarrow>
          (\<exists>its. TridiagL_complex release ResizeTo blocksize fuel A t = Some (None, its)
            \<and> branches_ok ComplexScalar blocksize (Height A) its))"
proof (intro conjI impI)
  from TridiagL_sweep_branches [OF bs fuel, of RealScalar]
  obtain its where "TridiagL_sweep RealScalar blocksize fuel (Height A) = Some its"
    "branches_ok RealScalar blocksize (Height A) its" by blast
  moreover from this(1) sq have "TridiagL release blocksize fuel A = Some (None, its)"
    by (simp add: TridiagL_def)
  ultimately show "\<exists>its. TridiagL release blocksize fuel A = Some (None, its)
      \<and> branches_ok RealScalar blocksize (Height A) its" by blast
next
  assume t: "GetGrid A = t_GetGrid t \<and> \<not> t_Viewing t \<and> \<not> t_ConstrainedColAlignment t
      \<and> ResizeTo (int (Height A) - 1) 1 = None"
  from TridiagL_sweep_branches [OF bs fuel, of ComplexScalar]
  obtain its where "TridiagL_sweep ComplexScalar blocksize fuel (Height A) = Some its"
    "branches_ok ComplexScalar blocksize (Height A) its" by blast
  moreover from this(1) sq t
  have "TridiagL_complex release ResizeTo blocksize fuel A t = Some (None, its)"
    by (simp add: TridiagL_complex_def)
  ultimately show "\<exists>its. TridiagL_complex release ResizeTo blocksize fuel A t = Some (None, its)
      \<and> branches_ok ComplexScalar blocksize (Height A) its" by blast
qed

text \<open>
  The theorem at a matrix of order 5 with block size 2: two panel steps, then the local
  one, with \<open>Syr2k\<close> in the real and \<open>Her2k\<close> in the complex overload.
\<close>

theorem TridiagL_branches_witness:
  "TridiagL False 2 6 A_ex
     = Some (None,
        [\<lparr> ATL_Height = 0, A11_Height = 2, A22_Height = 3,
            ops = [PanelTridiagL 5 2, Syr2k 3 2, SetDiagonal 2] \<rparr>,
         \<lparr> ATL_Height = 2, A11_Height = 2, A22_Height = 1,
            ops = [PanelTridiagL 3 2, Syr2k 1 2, SetDiagonal 2] \<rparr>,
         \<lparr> ATL_Height = 4, A11_Height = 1, A22_Height = 0,
            ops = [A11_to_Star_Star 1, LocalTridiag 1, A11_from_Star_Star 1] \<rparr>])
   \<and> TridiagL_complex False ResizeTo_ex 2 6 A_ex t_ex
     = Some (None,
        [\<lparr> ATL_Height = 0, A11_Height = 2, A22_Height = 3,
            ops = [PanelTridiagL 5 2, Her2k 3 2, SetDiagonal 2] \<rparr>,
         \<lparr> ATL_Height = 2, A11_Height = 2, A22_Height = 1,
            ops = [PanelTridiagL 3 2, Her2k 1 2, SetDiagonal 2] \<rparr>,
         \<lparr> ATL_Height = 4, A11_Height = 1, A22_Height = 0,
            ops = [A11_to_Star_Star 1, t1_Star_Star_ResizeTo 0, LocalTridiag 1,
                   A11_from_Star_Star 1, t1_from_Star_Star 0] \<rparr>])
   \<and> (\<exists>its. TridiagL False 2 6 A_ex = Some (None, its)
          \<and> branches_ok RealScalar 2 (Height A_ex) its)
   \<and> (\<exists>its. TridiagL_complex False ResizeTo_ex 2 6 A_ex t_ex = Some (None, its)
          \<and> branches_ok ComplexScalar 2 (Height A_ex) its)"
proof -
  have r: "TridiagL False 2 6 A_ex
     = Some (None,
        [\<lparr> ATL_Height = 0, A11_Height = 2, A22_Height = 3,
            ops = [PanelTridiagL 5 2, Syr2k 3 2, SetDiagonal 2] \<rparr>,
         \<lparr> ATL_Height = 2, A11_Height = 2, A22_Height = 1,
            ops = [PanelTridiagL 3 2, Syr2k 1 2, SetDiagonal 2] \<rparr>,
         \<lparr> ATL_Height = 4, A11_Height = 1, A22_Height = 0,
            ops = [A11_to_Star_Star 1, LocalTridiag 1, A11_from_Star_Star 1] \<rparr>])"
    by code_simp
  have c: "TridiagL_complex False ResizeTo_ex 2 6 A_ex t_ex
     = Some (None,
        [\<lparr> ATL_Height = 0, A11_Height = 2, A22_Height = 3,
            ops = [PanelTridiagL 5 2, Her2k 3 2, SetDiagonal 2] \<rparr>,
         \<lparr> ATL_Height = 2, A11_Height = 2, A22_Height = 1,
            ops = [PanelTridiagL 3 2, Her2k 1 2, SetDiagonal 2] \<rparr>,
         \<lparr> ATL_Height = 4, A11_Height = 1, A22_Height = 0,
            ops = [A11_to_Star_Star 1, t1_Star_Star_ResizeTo 0, LocalTridiag 1,
                   A11_from_Star_Star 1, t1_from_Star_Star 0] \<rparr>])"
    by code_simp
  have h: "(0::nat) < 2" "Height A_ex = Width A_ex" "Height A_ex < 6"
    by (simp_all add: A_ex_def)
  have t: "GetGrid A_ex = t_GetGrid t_ex \<and> \<not> t_Viewing t_ex \<and> \<not> t_ConstrainedColAlignment t_ex
      \<and> ResizeTo_ex (int (Height A_ex) - 1) 1 = None"
    by (simp add: A_ex_def t_ex_def ResizeTo_ex_def)
  from TridiagL_branches [OF h, of False t_ex ResizeTo_ex] t r c show ?thesis by blast
qed

section \<open>The iteration of TwoNormEstimate\<close>

lemma TwoNorm_body_numIts [simp]: "numIts (TwoNorm_body K A m s) = numIts s"
  by (simp add: TwoNorm_body_def Let_def split: prod.splits)

lemma TwoNorm_loop_numIts:
  "numIts s < numIts (TwoNorm_loop K A m n tol maxIts s)
   \<and> (numIts s < maxIts \<longrightarrow> numIts (TwoNorm_loop K A m n tol maxIts s) \<le> maxIts)"
proof (induction K A m n tol maxIts s rule: TwoNorm_loop.induct)
  case (1 K A m n tol maxIts s)
  define s' where "s' = (TwoNorm_body K A m s)\<lparr> numIts := numIts s + 1 \<rparr>"
  have n': "numIts s' = numIts s + 1" by (simp add: s'_def)
  show ?case
  proof (cases "numIts s + 1 < maxIts \<and> \<bar>estimate s' - lastEst s'\<bar> > tol * real (max m n)")
    case True
    then have eq: "TwoNorm_loop K A m n tol maxIts s = TwoNorm_loop K A m n tol maxIts s'"
      by (subst TwoNorm_loop.simps) (simp add: Let_def s'_def)
    from "1.IH" [OF s'_def] True
    have "numIts s' < numIts (TwoNorm_loop K A m n tol maxIts s')
        \<and> (numIts s' < maxIts \<longrightarrow> numIts (TwoNorm_loop K A m n tol maxIts s') \<le> maxIts)"
      by (simp add: s'_def)
    with True n' show ?thesis unfolding eq by auto
  next
    case False
    then have eq: "TwoNorm_loop K A m n tol maxIts s = s'"
      by (subst TwoNorm_loop.simps) (auto simp: Let_def s'_def)
    show ?thesis unfolding eq using n' by auto
  qed
qed

lemma TwoNorm_loop_exit:
  "maxIts \<le> numIts (TwoNorm_loop K A m n tol maxIts s)
   \<or> \<not> \<bar>estimate (TwoNorm_loop K A m n tol maxIts s) - lastEst (TwoNorm_loop K A m n tol maxIts s)\<bar>
         > tol * real (max m n)"
proof (induction K A m n tol maxIts s rule: TwoNorm_loop.induct)
  case (1 K A m n tol maxIts s)
  define s' where "s' = (TwoNorm_body K A m s)\<lparr> numIts := numIts s + 1 \<rparr>"
  have n': "numIts s' = numIts s + 1" by (simp add: s'_def)
  show ?case
  proof (cases "numIts s + 1 < maxIts \<and> \<bar>estimate s' - lastEst s'\<bar> > tol * real (max m n)")
    case True
    then have eq: "TwoNorm_loop K A m n tol maxIts s = TwoNorm_loop K A m n tol maxIts s'"
      by (subst TwoNorm_loop.simps) (simp add: Let_def s'_def)
    from "1.IH" [OF s'_def] True
    show ?thesis unfolding eq by (simp add: s'_def)
  next
    case False
    then have eq: "TwoNorm_loop K A m n tol maxIts s = s'"
      by (subst TwoNorm_loop.simps) (auto simp: Let_def s'_def)
    show ?thesis unfolding eq using False n' by auto
  qed
qed

lemma TwoNorm_init_numIts [simp]: "numIts (TwoNorm_init K n x0 g0) = 0"
  by (simp add: TwoNorm_init_def split: prod.splits)

text \<open>
  Claim C6.  \<open>TwoNormEstimate\<close> raises the runtime error exactly when the loop ends with
  the last two estimates more than \<open>tol * max(m, n)\<close> apart, and otherwise returns the
  last estimate; when it raises, the loop was stopped by the iteration bound.
\<close>

theorem TwoNormEstimate_raises_iff_not_converged:
  "let s = TwoNorm_loop K A m n tol maxIts (TwoNorm_init K n x0 g0);
       exceeded = (\<bar>estimate s - lastEst s\<bar> > tol * real (max m n))
   in ((TwoNormEstimate K A m n tol maxIts x0 g0
          = Inl (runtime_error ''Two-norm estimate did not converge in time'')) = exceeded)
    \<and> ((\<exists>e. TwoNormEstimate K A m n tol maxIts x0 g0 = Inl e) = exceeded)
    \<and> ((TwoNormEstimate K A m n tol maxIts x0 g0 = Inr (estimate s)) = (\<not> exceeded))
    \<and> (exceeded \<longrightarrow> maxIts \<le> numIts s)"
proof -
  define s where "s = TwoNorm_loop K A m n tol maxIts (TwoNorm_init K n x0 g0)"
  have res: "TwoNormEstimate K A m n tol maxIts x0 g0
      = (if \<bar>estimate s - lastEst s\<bar> > tol * real (max m n)
         then Inl (runtime_error ''Two-norm estimate did not converge in time'')
         else Inr (estimate s))"
    by (simp add: TwoNormEstimate_def Let_def s_def)
  have ex: "maxIts \<le> numIts s \<or> \<not> \<bar>estimate s - lastEst s\<bar> > tol * real (max m n)"
    unfolding s_def by (rule TwoNorm_loop_exit)
  show ?thesis
    unfolding Let_def s_def [symmetric] using res ex by auto
qed

text \<open>
  The theorem at the one-by-one matrix \<open>(2)\<close>: with one iteration allowed the estimate
  has not settled and the error is raised; with a thousand it settles at 2.
\<close>

theorem TwoNormEstimate_raises_iff_not_converged_witness:
  "TwoNormEstimate scalar_kernels 2 1 1 (1 / 1000000) 1 0 ()
     = Inl (runtime_error ''Two-norm estimate did not converge in time'')
   \<and> 1 \<le> numIts (TwoNorm_loop scalar_kernels 2 1 1 (1 / 1000000) 1 (TwoNorm_init scalar_kernels 1 0 ()))
   \<and> TwoNormEstimate scalar_kernels 2 1 1 (1 / 1000000) 1000 0 () = Inr 2
   \<and> \<not> \<bar>estimate (TwoNorm_loop scalar_kernels 2 1 1 (1 / 1000000) 1000 (TwoNorm_init scalar_kernels 1 0 ()))
        - lastEst (TwoNorm_loop scalar_kernels 2 1 1 (1 / 1000000) 1000 (TwoNorm_init scalar_kernels 1 0 ()))\<bar>
        > (1 / 1000000) * real (max 1 1)"
proof -
  have a: "TwoNormEstimate scalar_kernels 2 1 1 (1 / 1000000) 1 0 ()
     = Inl (runtime_error ''Two-norm estimate did not converge in time'')"
    by code_simp
  have b: "TwoNormEstimate scalar_kernels 2 1 1 (1 / 1000000) 1000 0 () = Inr 2"
    by code_simp
  from a TwoNormEstimate_raises_iff_not_converged [of scalar_kernels 2 1 1 "1 / 1000000" 1 0 "()"]
  have 1: "1 \<le> numIts (TwoNorm_loop scalar_kernels 2 1 1 (1 / 1000000) 1 (TwoNorm_init scalar_kernels 1 0 ()))"
    unfolding Let_def by blast
  from b TwoNormEstimate_raises_iff_not_converged [of scalar_kernels 2 1 1 "1 / 1000000" 1000 0 "()"]
  have 2: "\<not> \<bar>estimate (TwoNorm_loop scalar_kernels 2 1 1 (1 / 1000000) 1000 (TwoNorm_init scalar_kernels 1 0 ()))
        - lastEst (TwoNorm_loop scalar_kernels 2 1 1 (1 / 1000000) 1000 (TwoNorm_init scalar_kernels 1 0 ()))\<bar>
        > (1 / 1000000) * real (max 1 1)"
    unfolding Let_def by (metis Inl_Inr_False)
  from a b 1 2 show ?thesis by blast
qed

text \<open>
  Claim C7.  The loop is a total function (its recursion is bounded by \<open>maxIts - numIts\<close>),
  and for \<open>maxIts \<ge> 1\<close> it makes at least one and at most \<open>maxIts\<close> passes through its
  body; the routine then either raises the non-convergence error or returns an estimate.
\<close>

theorem TwoNormEstimate_at_most_maxIts:
  assumes "1 \<le> maxIts"
  shows "1 \<le> numIts (TwoNorm_loop K A m n tol maxIts (TwoNorm_init K n x0 g0))
       \<and> numIts (TwoNorm_loop K A m n tol maxIts (TwoNorm_init K n x0 g0)) \<le> maxIts
       \<and> (TwoNormEstimate K A m n tol maxIts x0 g0
            = Inl (runtime_error ''Two-norm estimate did not converge in time'')
          \<or> (\<exists>est. TwoNormEstimate K A m n tol maxIts x0 g0 = Inr est))"
proof -
  from TwoNorm_loop_numIts [of "TwoNorm_init K n x0 g0" K A m n tol maxIts] assms
  have "1 \<le> numIts (TwoNorm_loop K A m n tol maxIts (TwoNorm_init K n x0 g0))"
    and "numIts (TwoNorm_loop K A m n tol maxIts (TwoNorm_init K n x0 g0)) \<le> maxIts"
    by simp_all
  moreover have "TwoNormEstimate K A m n tol maxIts x0 g0
            = Inl (runtime_error ''Two-norm estimate did not converge in time'')
          \<or> (\<exists>est. TwoNormEstimate K A m n tol maxIts x0 g0 = Inr est)"
    by (simp add: TwoNormEstimate_def Let_def)
  ultimately show ?thesis by blast
qed

text \<open>The theorem at the one-by-one matrix \<open>(2)\<close>: two passes out of a thousand allowed.\<close>

theorem TwoNormEstimate_at_most_maxIts_witness:
  "numIts (TwoNorm_loop scalar_kernels 2 1 1 (1 / 1000000) 1000 (TwoNorm_init scalar_kernels 1 0 ())) = 2
   \<and> 1 \<le> numIts (TwoNorm_loop scalar_kernels 2 1 1 (1 / 1000000) 1000 (TwoNorm_init scalar_kernels 1 0 ()))
   \<and> numIts (TwoNorm_loop scalar_kernels 2 1 1 (1 / 1000000) 1000 (TwoNorm_init scalar_kernels 1 0 ()))
       \<le> 1000"
proof -
  have h: "(1::int) \<le> 1000" by simp
  have e: "numIts (TwoNorm_loop scalar_kernels 2 1 1 (1 / 1000000) 1000
             (TwoNorm_init scalar_kernels 1 0 ())) = 2"
    by code_simp
  from e TwoNormEstimate_at_most_maxIts [OF h, of scalar_kernels 2 1 1 "1 / 1000000" 0 "()"]
  show ?thesis by blast
qed

section \<open>Ownership and redistribution\<close>

subsection \<open>One axis: shifts, strides and local lengths\<close>

lemma Shift_less: "0 < s \<Longrightarrow> Shift k al s < s"
  by (simp add: Shift_def)

lemma Shift_owner: "al < s \<Longrightarrow> Shift ((i + al) mod s) al s = i mod s"
proof -
  assume a: "al < s"
  have "Shift ((i + al) mod s) al s = ((i + al) mod s + (s - al)) mod s"
    using a by (simp add: Shift_def)
  also have "\<dots> = (i + al + (s - al)) mod s" by (simp add: mod_add_left_eq)
  also have "\<dots> = (i + s) mod s" using a by simp
  finally show ?thesis by simp
qed

lemma owner_of_Shift: "al < s \<Longrightarrow> k < s \<Longrightarrow> (Shift k al s + iLoc * s + al) mod s = k"
proof -
  assume a: "al < s" "k < s"
  have "Shift k al s + iLoc * s + al = (Shift k al s + al) + iLoc * s" by simp
  then have "(Shift k al s + iLoc * s + al) mod s = (Shift k al s + al) mod s"
    by (simp only: mod_mult_self1)
  also have "\<dots> = ((k + (s - al)) mod s + al) mod s"
    using a by (simp add: Shift_def)
  also have "\<dots> = (k + (s - al) + al) mod s" by (simp add: mod_add_left_eq)
  also have "\<dots> = (k + s) mod s" using a by simp
  finally show ?thesis using a by simp
qed

lemma local_index: "sh < s \<Longrightarrow> (sh + iLoc * s) div s = (iLoc::nat)"
proof -
  assume a: "sh < s"
  then have "s \<noteq> 0" by auto
  then have "(sh + iLoc * s) div s = iLoc + sh div s" by simp
  with a show ?thesis by simp
qed

lemma local_shift: "sh < s \<Longrightarrow> (sh + iLoc * s) mod s = (sh::nat)"
proof -
  assume a: "sh < s"
  have "(sh + iLoc * s) mod s = sh mod s" by (rule mod_mult_self1)
  with a show ?thesis by simp
qed

lemma in_range_iff: "0 < s \<Longrightarrow> (sh + iLoc * s < n) = (iLoc < LocalLength n sh s)"
proof (cases "sh < n")
  case True
  assume s: "0 < s"
  have "(sh + iLoc * s < n) = (iLoc * s \<le> n - sh - 1)" using True by auto
  also have "\<dots> = (iLoc \<le> (n - sh - 1) div s)"
    using s by (simp add: less_eq_div_iff_mult_less_eq)
  finally show ?thesis using True by (auto simp: LocalLength_def)
next
  case False
  then show ?thesis by (simp add: LocalLength_def)
qed

lemma global_in_range: "0 < s \<Longrightarrow> i < n \<Longrightarrow> i div s < LocalLength n (i mod s) s"
  using in_range_iff [of s "i mod s" "i div s" n] by simp

lemma Stride_pos: "0 < gHeight g \<Longrightarrow> 0 < gWidth g \<Longrightarrow> 0 < Stride d g"
  by (cases d) (simp_all add: Stride_def)

lemma vec_rank_less: "(a::nat) < r \<Longrightarrow> b < c \<Longrightarrow> a + r * b < r * c"
proof -
  assume "a < r" "b < c"
  then have "a + r * b < r * (b + 1)" by simp
  also have "\<dots> \<le> r * c" using \<open>b < c\<close> by (intro mult_le_mono2) simp
  finally show ?thesis .
qed

lemma vec_rank_less': "(a::nat) < r \<Longrightarrow> b < c \<Longrightarrow> a + b * r < r * c"
  using vec_rank_less [of a r b c] by (simp add: mult.commute)

lemma vec_rank_less'': "(a::nat) < c \<Longrightarrow> b < r \<Longrightarrow> a + c * b < r * c"
  using vec_rank_less [of a c b r] by (simp add: mult.commute)

lemma vec_div_less: "(k::nat) < r * c \<Longrightarrow> k div r < c"
  by (simp add: less_mult_imp_div_less mult.commute)

lemma Rank_less: "p \<in> procs g \<Longrightarrow> Rank d g p < Stride d g"
  by (cases d) (auto simp: procs_def Rank_def Stride_def vec_rank_less vec_rank_less'')

lemma Place_procs: "p \<in> procs g \<Longrightarrow> k < Stride d g \<Longrightarrow> Place d g k p \<in> procs g"
  by (cases d) (auto simp: procs_def Place_def Stride_def vec_div_less mult.commute)

lemma Rank_Place: "k < Stride d g \<Longrightarrow> Rank d g (Place d g k p) = k"
  by (cases d) (auto simp: Rank_def Place_def Stride_def)

lemma Rank_Place_legal:
  "legal (cd, rd) \<Longrightarrow> a < Stride cd g \<Longrightarrow> b < Stride rd g \<Longrightarrow>
     Rank cd g (Place rd g b (Place cd g a q)) = a"
  by (auto simp: legal_def Rank_def Place_def Stride_def)

lemma Place_own:
  "legal (cd, rd) \<Longrightarrow> p \<in> procs g \<Longrightarrow>
     Place rd g (Rank rd g p) (Place cd g (Rank cd g p) p) = p"
  by (auto simp: legal_def Rank_def Place_def procs_def)

subsection \<open>Owners, local positions and the redistributing assignment\<close>

lemma layout_strides:
  assumes "layout_ok A"
  shows "0 < colStride A" "0 < rowStride A"
  using assms by (auto simp: layout_ok_def)

lemma Owner_procs:
  assumes l: "layout_ok A" and q: "q \<in> procs (grid A)"
  shows "Owner A q i j \<in> procs (grid A)"
proof -
  from layout_strides [OF l]
  have "(i + colAlignment A) mod colStride A < Stride (colDist A) (grid A)"
       "(j + rowAlignment A) mod rowStride A < Stride (rowDist A) (grid A)"
    by (simp_all add: colStride_def rowStride_def)
  with q show ?thesis by (simp add: Owner_def Place_procs)
qed

lemma Owner_ranks:
  assumes l: "layout_ok A"
  shows "Rank (colDist A) (grid A) (Owner A q i j) = (i + colAlignment A) mod colStride A"
    and "Rank (rowDist A) (grid A) (Owner A q i j) = (j + rowAlignment A) mod rowStride A"
proof -
  from layout_strides [OF l]
  have lt: "(i + colAlignment A) mod colStride A < Stride (colDist A) (grid A)"
       "(j + rowAlignment A) mod rowStride A < Stride (rowDist A) (grid A)"
    by (simp_all add: colStride_def rowStride_def)
  from l have leg: "legal (colDist A, rowDist A)" by (simp add: layout_ok_def)
  show "Rank (colDist A) (grid A) (Owner A q i j) = (i + colAlignment A) mod colStride A"
    unfolding Owner_def by (rule Rank_Place_legal [OF leg lt])
  show "Rank (rowDist A) (grid A) (Owner A q i j) = (j + rowAlignment A) mod rowStride A"
    unfolding Owner_def by (rule Rank_Place [OF lt(2)])
qed

lemma Owner_shifts:
  assumes l: "layout_ok A" and q: "q \<in> procs (grid A)"
  shows "colShift A (Owner A q i j) = i mod colStride A"
    and "rowShift A (Owner A q i j) = j mod rowStride A"
proof -
  from l have al: "colAlignment A < colStride A" "rowAlignment A < rowStride A"
    by (simp_all add: layout_ok_def)
  from l Owner_procs [OF l q, of i j]
  have "colShift A (Owner A q i j)
      = Shift (Rank (colDist A) (grid A) (Owner A q i j)) (colAlignment A) (colStride A)"
    and "rowShift A (Owner A q i j)
      = Shift (Rank (rowDist A) (grid A) (Owner A q i j)) (rowAlignment A) (rowStride A)"
    by (simp_all add: layout_ok_def)
  then show "colShift A (Owner A q i j) = i mod colStride A"
    and "rowShift A (Owner A q i j) = j mod rowStride A"
    by (simp_all add: Owner_ranks [OF l] Shift_owner al)
qed

lemma shifts_less:
  assumes l: "layout_ok A" and p: "p \<in> procs (grid A)"
  shows "colShift A p < colStride A" "rowShift A p < rowStride A"
  using l p layout_strides [OF l] by (simp_all add: layout_ok_def Shift_less)

lemma Owner_self:
  assumes l: "layout_ok A" and p: "p \<in> procs (grid A)"
  shows "Owner A p (colShift A p + iLoc * colStride A) (rowShift A p + jLoc * rowStride A) = p"
proof -
  from l have al: "colAlignment A < colStride A" "rowAlignment A < rowStride A"
    and leg: "legal (colDist A, rowDist A)"
    by (simp_all add: layout_ok_def)
  from l p have sh: "colShift A p = Shift (Rank (colDist A) (grid A) p) (colAlignment A) (colStride A)"
    "rowShift A p = Shift (Rank (rowDist A) (grid A) p) (rowAlignment A) (rowStride A)"
    by (simp_all add: layout_ok_def)
  have rk: "Rank (colDist A) (grid A) p < colStride A" "Rank (rowDist A) (grid A) p < rowStride A"
    using Rank_less [OF p] by (simp_all add: colStride_def rowStride_def)
  have "(colShift A p + iLoc * colStride A + colAlignment A) mod colStride A
          = Rank (colDist A) (grid A) p"
    unfolding sh by (rule owner_of_Shift [OF al(1) rk(1)])
  moreover have "(rowShift A p + jLoc * rowStride A + rowAlignment A) mod rowStride A
          = Rank (rowDist A) (grid A) p"
    unfolding sh by (rule owner_of_Shift [OF al(2) rk(2)])
  ultimately show ?thesis
    by (simp add: Owner_def Place_own [OF leg p])
qed

lemma local_Get:
  assumes l: "layout_ok A" and p: "p \<in> procs (grid A)"
  shows "Get A p (colShift A p + iLoc * colStride A) (rowShift A p + jLoc * rowStride A)
       = Entry (localMatrix A p) iLoc jLoc"
  using shifts_less [OF l p]
  by (simp add: Get_def Owner_self [OF l p] local_index)

lemma Redistribute_fields [simp]:
  "colDist (Redistribute B A) = colDist B"
  "rowDist (Redistribute B A) = rowDist B"
  "height (Redistribute B A) = height A"
  "width (Redistribute B A) = width A"
  "colAlignment (Redistribute B A) = colAlignment B"
  "rowAlignment (Redistribute B A) = rowAlignment B"
  "colShift (Redistribute B A) = colShift B"
  "rowShift (Redistribute B A) = rowShift B"
  "grid (Redistribute B A) = grid B"
  "colStride (Redistribute B A) = colStride B"
  "rowStride (Redistribute B A) = rowStride B"
  "Owner (Redistribute B A) = Owner B"
  by (simp_all add: Redistribute_def colStride_def rowStride_def Owner_def fun_eq_iff)

lemma Redistribute_local [simp]:
  "Height (localMatrix (Redistribute B A) q) = LocalLength (height A) (colShift B q) (colStride B)"
  "Width (localMatrix (Redistribute B A) q) = LocalLength (width A) (rowShift B q) (rowStride B)"
  "Entry (localMatrix (Redistribute B A) q) iLoc jLoc
     = Get A q (colShift B q + iLoc * colStride B) (rowShift B q + jLoc * rowStride B)"
  by (simp_all add: Redistribute_def)

lemma layout_Redistribute: "layout_ok B \<Longrightarrow> layout_ok (Redistribute B A)"
  by (simp add: layout_ok_def)

lemma Get_Redistribute:
  assumes l: "layout_ok B" and q: "q \<in> procs (grid B)"
  shows "Get (Redistribute B A) q i j = Get A (Owner B q i j) i j"
proof -
  from layout_strides [OF l] have "colStride B \<noteq> 0" "rowStride B \<noteq> 0" by simp_all
  then show ?thesis
    by (simp add: Get_def [of "Redistribute B A"] Owner_shifts [OF l q])
qed

lemma Get_indep:
  assumes w: "well_formed A" and q: "q \<in> procs (grid A)" and q': "q' \<in> procs (grid A)"
    and i: "i < height A" and j: "j < width A"
  shows "Get A q i j = Get A q' i j"
proof -
  from w have l: "layout_ok A" by (simp add: well_formed_def)
  let ?p = "Owner A q i j" and ?p' = "Owner A q' i j"
  have p: "?p \<in> procs (grid A)" and p': "?p' \<in> procs (grid A)"
    using Owner_procs [OF l] q q' by simp_all
  have rk: "Rank (colDist A) (grid A) ?p = Rank (colDist A) (grid A) ?p'"
       "Rank (rowDist A) (grid A) ?p = Rank (rowDist A) (grid A) ?p'"
    by (simp_all add: Owner_ranks [OF l])
  from w p have "Height (localMatrix A ?p) = LocalLength (height A) (colShift A ?p) (colStride A)"
    and "Width (localMatrix A ?p) = LocalLength (width A) (rowShift A ?p) (rowStride A)"
    by (simp_all add: well_formed_def)
  with i j layout_strides [OF l]
  have rg: "i div colStride A < Height (localMatrix A ?p)"
           "j div rowStride A < Width (localMatrix A ?p)"
    by (simp_all add: Owner_shifts [OF l q] global_in_range)
  from w p p' rk rg
  have "Entry (localMatrix A ?p) (i div colStride A) (j div rowStride A)
      = Entry (localMatrix A ?p') (i div colStride A) (j div rowStride A)"
    unfolding well_formed_def by blast
  then show ?thesis by (simp add: Get_def)
qed

subsection \<open>Round trips\<close>

lemma layout_from_global:
  assumes "0 < gHeight g" "0 < gWidth g" "legal s"
    and "ca < Stride (fst s) g" "ra < Stride (snd s) g"
  shows "layout_ok (from_global s ca ra g M)"
  using assms by (simp add: layout_ok_def from_global_def colStride_def rowStride_def)

lemma well_formed_from_global:
  assumes "0 < gHeight g" "0 < gWidth g" "legal s"
    and "ca < Stride (fst s) g" "ra < Stride (snd s) g"
  shows "well_formed (from_global s ca ra g M)"
  unfolding well_formed_def
proof (intro conjI)
  show "layout_ok (from_global s ca ra g M)" by (rule layout_from_global [OF assms])
qed (simp_all add: from_global_def colStride_def rowStride_def)

lemma holds_contents_refl: "holds_contents_of A A"
  by (simp add: holds_contents_of_def)

lemma holds_contents_step:
  assumes w: "well_formed A" and h: "holds_contents_of A X"
    and l: "layout_ok B" and g: "grid B = grid A"
  shows "assign_from B X = Inr (Redistribute B X)"
    and "holds_contents_of A (Redistribute B X)"
proof -
  from h g show "assign_from B X = Inr (Redistribute B X)"
    by (simp add: assign_from_def holds_contents_of_def)
  have "Get (Redistribute B X) q i j = Get A q i j"
    if q: "q \<in> procs (grid A)" and i: "i < height A" and j: "j < width A" for q i j
  proof -
    from q g have qB: "q \<in> procs (grid B)" by simp
    from Owner_procs [OF l qB, of i j] g have o: "Owner B q i j \<in> procs (grid A)" by simp
    have "Get (Redistribute B X) q i j = Get X (Owner B q i j) i j"
      by (rule Get_Redistribute [OF l qB])
    also from h o i j have "\<dots> = Get A (Owner B q i j) i j"
      by (simp add: holds_contents_of_def)
    also have "\<dots> = Get A q i j" by (rule Get_indep [OF w o q i j])
    finally show ?thesis .
  qed
  with h g show "holds_contents_of A (Redistribute B X)"
    by (simp add: holds_contents_of_def)
qed

lemma assign_chain_holds:
  assumes w: "well_formed A"
  shows "holds_contents_of A X \<Longrightarrow> \<forall>B \<in> set Bs. layout_ok B \<and> grid B = grid A \<Longrightarrow>
         \<exists>Y. assign_chain X Bs = Inr Y \<and> holds_contents_of A Y"
proof (induction Bs arbitrary: X)
  case Nil
  then show ?case by simp
next
  case (Cons B Bs)
  from Cons.prems have l: "layout_ok B" and g: "grid B = grid A" by simp_all
  note st = holds_contents_step [OF w Cons.prems(1) l g]
  from Cons.IH [OF st(2)] Cons.prems(2)
  obtain Y where "assign_chain (Redistribute B X) Bs = Inr Y" "holds_contents_of A Y" by auto
  with st(1) show ?case by simp
qed

lemma assign_chain_append:
  "assign_chain X (Bs @ Cs) =
     (case assign_chain X Bs of Inl e \<Rightarrow> Inl e | Inr Y \<Rightarrow> assign_chain Y Cs)"
  by (induction Bs arbitrary: X) (simp_all split: sum.splits)

lemma assign_back:
  assumes w: "well_formed A" and h: "holds_contents_of A Y"
  shows "same_entries (Redistribute A Y) A"
proof -
  from w have l: "layout_ok A" by (simp add: well_formed_def)
  have loc: "Height (localMatrix A p) = LocalLength (height A) (colShift A p) (colStride A)"
       "Width (localMatrix A p) = LocalLength (width A) (rowShift A p) (rowStride A)"
    if "p \<in> procs (grid A)" for p
    using w that by (simp_all add: well_formed_def)
  have ent: "Entry (localMatrix (Redistribute A Y) p) iLoc jLoc = Entry (localMatrix A p) iLoc jLoc"
    if p: "p \<in> procs (grid A)" and i: "iLoc < Height (localMatrix A p)"
      and j: "jLoc < Width (localMatrix A p)" for p iLoc jLoc
  proof -
    from i j loc [OF p] layout_strides [OF l]
    have rg: "colShift A p + iLoc * colStride A < height A"
             "rowShift A p + jLoc * rowStride A < width A"
      by (simp_all add: in_range_iff)
    have "Entry (localMatrix (Redistribute A Y) p) iLoc jLoc
        = Get Y p (colShift A p + iLoc * colStride A) (rowShift A p + jLoc * rowStride A)"
      by simp
    also from h p rg have "\<dots> = Get A p (colShift A p + iLoc * colStride A)
                                   (rowShift A p + jLoc * rowStride A)"
      by (simp add: holds_contents_of_def)
    also have "\<dots> = Entry (localMatrix A p) iLoc jLoc" by (rule local_Get [OF l p])
    finally show ?thesis .
  qed
  from h have hw: "height Y = height A" "width Y = width A"
    by (simp_all add: holds_contents_of_def)
  show ?thesis
    unfolding same_entries_def using hw loc ent by simp
qed

text \<open>
  Claim C2.  For a well-formed matrix \<open>A\<close> of any scheme of the catalogue and any chain
  of temporaries of other schemes and alignments on the same grid, converting \<open>A\<close> along
  the chain and back into \<open>A\<close>, whose scheme and alignment are unchanged, raises no error
  and reproduces on every process the local matrix of \<open>A\<close>, entry for entry.  The chain
  \<open>[B]\<close> is the round trip \<open>A \<rightarrow> B \<rightarrow> A\<close>; the chain \<open>[X1[*,VR], X1[*,MR]]\<close> from an
  \<open>[MC,MR]\<close> matrix is the one of \<open>TrsmLLN\<close>.  The entries are of an arbitrary type: they
  are moved, and no arithmetic is available to the conversion.
\<close>

theorem redistribution_round_trip:
  assumes w: "well_formed A"
    and Bs: "\<forall>B \<in> set Bs. layout_ok B \<and> grid B = grid A"
  shows "\<exists>A'. round_trip A Bs = Inr A' \<and> same_entries A' A"
proof -
  from assign_chain_holds [OF w holds_contents_refl Bs]
  obtain Y where Y: "assign_chain A Bs = Inr Y" "holds_contents_of A Y" by blast
  from Y(2) have "grid A = grid Y" by (simp add: holds_contents_of_def)
  then have "assign_from A Y = Inr (Redistribute A Y)" by (simp add: assign_from_def)
  with Y(1) have "round_trip A Bs = Inr (Redistribute A Y)"
    by (simp add: round_trip_def assign_chain_append)
  with assign_back [OF w Y(2)] show ?thesis by blast
qed

lemma grid23_pos: "0 < gHeight grid23" "0 < gWidth grid23"
  by (simp_all add: grid23_def)

text \<open>
  The theorem at the chain \<open>[MC,MR] \<rightarrow> [*,VR] \<rightarrow> [*,MR] \<rightarrow> [MC,MR]\<close> of a 5 x 4 matrix on
  a 2 x 3 grid, with one entry followed through.
\<close>

theorem redistribution_round_trip_witness:
  "well_formed D_ex
   \<and> (\<exists>A'. round_trip D_ex [Star_VR_ex, Star_MR_ex] = Inr A' \<and> same_entries A' D_ex)
   \<and> round_trip D_ex [Star_VR_ex, Star_MR_ex]
       = Inr (Redistribute D_ex (Redistribute Star_MR_ex (Redistribute Star_VR_ex D_ex)))
   \<and> Entry (localMatrix
        (Redistribute D_ex (Redistribute Star_MR_ex (Redistribute Star_VR_ex D_ex))) (1, 2)) 2 1
       = 43
   \<and> Entry (localMatrix D_ex (1, 2)) 2 1 = 43"
proof -
  have w: "well_formed D_ex"
    unfolding D_ex_def
    by (rule well_formed_from_global [OF grid23_pos]) (simp_all add: legal_def Stride_def grid23_def)
  have v: "layout_ok Star_VR_ex"
    unfolding Star_VR_ex_def
    by (rule layout_from_global [OF grid23_pos]) (simp_all add: legal_def Stride_def grid23_def)
  have m: "layout_ok Star_MR_ex"
    unfolding Star_MR_ex_def
    by (rule layout_from_global [OF grid23_pos]) (simp_all add: legal_def Stride_def grid23_def)
  have g: "grid Star_VR_ex = grid D_ex" "grid Star_MR_ex = grid D_ex"
    by (simp_all add: Star_VR_ex_def Star_MR_ex_def D_ex_def from_global_def)
  from v m g have Bs: "\<forall>B \<in> set [Star_VR_ex, Star_MR_ex]. layout_ok B \<and> grid B = grid D_ex"
    by simp
  have r: "round_trip D_ex [Star_VR_ex, Star_MR_ex]
       = Inr (Redistribute D_ex (Redistribute Star_MR_ex (Redistribute Star_VR_ex D_ex)))"
    by (simp add: round_trip_def assign_from_def g)
  have e: "Entry (localMatrix
        (Redistribute D_ex (Redistribute Star_MR_ex (Redistribute Star_VR_ex D_ex))) (1, 2)) 2 1
       = 43"
    by code_simp
  have e': "Entry (localMatrix D_ex (1, 2)) 2 1 = 43"
    by code_simp
  from w redistribution_round_trip [OF w Bs] r e e' show ?thesis by blast
qed

subsection \<open>The global entries of a matrix built from global entries\<close>

lemma Get_from_global:
  assumes g: "0 < gHeight g" "0 < gWidth g" and s: "legal s"
    and al: "ca < Stride (fst s) g" "ra < Stride (snd s) g"
    and q: "q \<in> procs g"
  shows "Get (from_global s ca ra g M) q i j = Entry M i j"
proof -
  let ?A = "from_global s ca ra g M"
  have l: "layout_ok ?A" by (rule layout_from_global [OF g s al])
  have f: "grid ?A = g" "colStride ?A = Stride (fst s) g" "rowStride ?A = Stride (snd s) g"
    "colDist ?A = fst s" "rowDist ?A = snd s" "colAlignment ?A = ca" "rowAlignment ?A = ra"
    by (simp_all add: from_global_def colStride_def rowStride_def)
  from q have q': "q \<in> procs (grid ?A)" by (simp add: f)
  note r = Owner_ranks [OF l, of q i j, unfolded f]
  have "Get ?A q i j
      = Entry M (Shift (Rank (fst s) g (Owner ?A q i j)) ca (Stride (fst s) g)
                   + i div Stride (fst s) g * Stride (fst s) g)
                (Shift (Rank (snd s) g (Owner ?A q i j)) ra (Stride (snd s) g)
                   + j div Stride (snd s) g * Stride (snd s) g)"
    by (simp add: Get_def f) (simp add: from_global_def)
  also have "\<dots> = Entry M i j"
    unfolding r by (simp add: Shift_owner al mod_div_mult_eq)
  finally show ?thesis .
qed

section \<open>Nrm2 returns the Euclidean norm on every process\<close>

lemma sum_shards:
  fixes f :: "nat \<Rightarrow> 'b::comm_monoid_add"
  assumes s: "0 < s" and al: "al < s"
  shows "(\<Sum>k<s. \<Sum>l<LocalLength n (Shift k al s) s. f (Shift k al s + l * s)) = (\<Sum>i<n. f i)"
proof -
  let ?S = "SIGMA k:{..<s}. {..<LocalLength n (Shift k al s) s}"
  have "(\<Sum>k<s. \<Sum>l<LocalLength n (Shift k al s) s. f (Shift k al s + l * s))
      = (\<Sum>(k, l)\<in>?S. f (Shift k al s + l * s))"
    by (simp add: sum.Sigma)
  also have "\<dots> = (\<Sum>i<n. f i)"
  proof (rule sum.reindex_bij_witness
      [where i = "\<lambda>i. ((i + al) mod s, i div s)" and j = "\<lambda>(k, l). Shift k al s + l * s"])
    fix a assume "a \<in> ?S"
    then obtain k l where a: "a = (k, l)" and k: "k < s" and l: "l < LocalLength n (Shift k al s) s"
      by auto
    show "(((case a of (k, l) \<Rightarrow> Shift k al s + l * s) + al) mod s,
           (case a of (k, l) \<Rightarrow> Shift k al s + l * s) div s) = a"
      using a k by (simp add: owner_of_Shift [OF al] local_index Shift_less [OF s])
    show "(case a of (k, l) \<Rightarrow> Shift k al s + l * s) \<in> {..<n}"
      using a l by (simp add: in_range_iff [OF s])
    show "f (case a of (k, l) \<Rightarrow> Shift k al s + l * s)
        = (case a of (k, l) \<Rightarrow> f (Shift k al s + l * s))"
      using a by simp
  next
    fix b assume "b \<in> {..<n}"
    then have b: "b < n" by simp
    show "(case ((b + al) mod s, b div s) of (k, l) \<Rightarrow> Shift k al s + l * s) = b"
      by (simp add: Shift_owner [OF al])
    show "((b + al) mod s, b div s) \<in> ?S"
      using s b by (simp add: Shift_owner [OF al] global_in_range)
  qed
  finally show ?thesis .
qed

lemma blas_Nrm2_map: "blas_Nrm2 (map F [0..<n]) = sqrt (\<Sum>k<n. (F k)\<^sup>2)"
  by (simp add: blas_Nrm2_def)

lemma LocalNrm2_sq:
  "(LocalNrm2 M)\<^sup>2 = (\<Sum>i<Height M. \<Sum>j<Width M. (norm (Entry M i j))\<^sup>2)"
  by (simp add: LocalNrm2_def sum_nonneg)

lemma Shift_self: "al < s \<Longrightarrow> Shift al al s = 0"
  by (simp add: Shift_def)

lemma LocalLength_one: "LocalLength (Suc 0) 0 s = Suc 0"
  by (simp add: LocalLength_def)

lemma Nrm2_column:
  fixes x :: "'a::real_normed_vector DistMatrix"
  assumes w: "well_formed x" and sch: "colDist x = MC" "rowDist x = MR"
    and w1: "width x = 1"
  shows "(\<Sum>k<gHeight (grid x). (LocalNrm2 (localMatrix x (k, rowAlignment x)))\<^sup>2)
       = (\<Sum>i<height x. (norm (Global x i 0))\<^sup>2)"
proof -
  let ?g = "grid x" and ?oc = "rowAlignment x" and ?ca = "colAlignment x"
  from w have l: "layout_ok x" by (simp add: well_formed_def)
  have cs: "colStride x = gHeight ?g" and rs: "rowStride x = gWidth ?g"
    by (simp_all add: colStride_def rowStride_def Stride_def sch)
  from l have pos: "0 < gHeight ?g" "0 < gWidth ?g" and ca: "?ca < gHeight ?g"
    and oc: "?oc < gWidth ?g"
    by (simp_all add: layout_ok_def cs rs)
  have z: "(0, 0) \<in> procs ?g" using pos by (simp add: procs_def)
  have one: "(LocalNrm2 (localMatrix x (k, ?oc)))\<^sup>2
      = (\<Sum>i<LocalLength (height x) (Shift k ?ca (gHeight ?g)) (gHeight ?g).
           (norm (Global x (Shift k ?ca (gHeight ?g) + i * gHeight ?g) 0))\<^sup>2)"
    if k: "k < gHeight ?g" for k
  proof -
    from k oc have p: "(k, ?oc) \<in> procs ?g" by (simp add: procs_def)
    from l p have sh: "colShift x (k, ?oc) = Shift k ?ca (gHeight ?g)" "rowShift x (k, ?oc) = 0"
      by (simp_all add: layout_ok_def cs rs sch Rank_def Shift_self oc)
    from w p have dims: "Height (localMatrix x (k, ?oc))
          = LocalLength (height x) (Shift k ?ca (gHeight ?g)) (gHeight ?g)"
        "Width (localMatrix x (k, ?oc)) = 1"
      by (simp_all add: well_formed_def sh cs rs w1 LocalLength_one)
    have ent: "Entry (localMatrix x (k, ?oc)) i 0
        = Global x (Shift k ?ca (gHeight ?g) + i * gHeight ?g) 0"
      if i: "i < LocalLength (height x) (Shift k ?ca (gHeight ?g)) (gHeight ?g)" for i
    proof -
      from i pos have rg: "Shift k ?ca (gHeight ?g) + i * gHeight ?g < height x"
        by (simp add: in_range_iff)
      have "Entry (localMatrix x (k, ?oc)) i 0
          = Get x (k, ?oc) (colShift x (k, ?oc) + i * colStride x) (rowShift x (k, ?oc) + 0 * rowStride x)"
        by (rule local_Get [OF l p, symmetric])
      also have "\<dots> = Get x (k, ?oc) (Shift k ?ca (gHeight ?g) + i * gHeight ?g) 0"
        by (simp add: sh cs)
      also have "\<dots> = Get x (0, 0) (Shift k ?ca (gHeight ?g) + i * gHeight ?g) 0"
        by (rule Get_indep [OF w p z rg]) (simp add: w1)
      finally show ?thesis by (simp add: Global_def)
    qed
    show ?thesis
      unfolding LocalNrm2_sq dims by (rule sum.cong) (simp_all add: ent)
  qed
  have "(\<Sum>k<gHeight ?g. (LocalNrm2 (localMatrix x (k, ?oc)))\<^sup>2)
      = (\<Sum>k<gHeight ?g. \<Sum>i<LocalLength (height x) (Shift k ?ca (gHeight ?g)) (gHeight ?g).
           (norm (Global x (Shift k ?ca (gHeight ?g) + i * gHeight ?g) 0))\<^sup>2)"
    by (rule sum.cong) (simp_all add: one)
  also have "\<dots> = (\<Sum>i<height x. (norm (Global x i 0))\<^sup>2)"
    by (rule sum_shards [OF pos(1) ca])
  finally show ?thesis .
qed

lemma Nrm2_row:
  fixes x :: "'a::real_normed_vector DistMatrix"
  assumes w: "well_formed x" and sch: "colDist x = MC" "rowDist x = MR"
    and h1: "height x = 1"
  shows "(\<Sum>k<gWidth (grid x). (LocalNrm2 (localMatrix x (colAlignment x, k)))\<^sup>2)
       = (\<Sum>j<width x. (norm (Global x 0 j))\<^sup>2)"
proof -
  let ?g = "grid x" and ?or = "colAlignment x" and ?ra = "rowAlignment x"
  from w have l: "layout_ok x" by (simp add: well_formed_def)
  have cs: "colStride x = gHeight ?g" and rs: "rowStride x = gWidth ?g"
    by (simp_all add: colStride_def rowStride_def Stride_def sch)
  from l have pos: "0 < gHeight ?g" "0 < gWidth ?g" and or: "?or < gHeight ?g"
    and ra: "?ra < gWidth ?g"
    by (simp_all add: layout_ok_def cs rs)
  have z: "(0, 0) \<in> procs ?g" using pos by (simp add: procs_def)
  have one: "(LocalNrm2 (localMatrix x (?or, k)))\<^sup>2
      = (\<Sum>j<LocalLength (width x) (Shift k ?ra (gWidth ?g)) (gWidth ?g).
           (norm (Global x 0 (Shift k ?ra (gWidth ?g) + j * gWidth ?g)))\<^sup>2)"
    if k: "k < gWidth ?g" for k
  proof -
    from k or have p: "(?or, k) \<in> procs ?g" by (simp add: procs_def)
    from l p have sh: "colShift x (?or, k) = 0" "rowShift x (?or, k) = Shift k ?ra (gWidth ?g)"
      by (simp_all add: layout_ok_def cs rs sch Rank_def Shift_self or)
    from w p have dims: "Height (localMatrix x (?or, k)) = 1"
        "Width (localMatrix x (?or, k))
          = LocalLength (width x) (Shift k ?ra (gWidth ?g)) (gWidth ?g)"
      by (simp_all add: well_formed_def sh cs rs h1 LocalLength_one)
    have ent: "Entry (localMatrix x (?or, k)) 0 j
        = Global x 0 (Shift k ?ra (gWidth ?g) + j * gWidth ?g)"
      if j: "j < LocalLength (width x) (Shift k ?ra (gWidth ?g)) (gWidth ?g)" for j
    proof -
      from j pos have rg: "Shift k ?ra (gWidth ?g) + j * gWidth ?g < width x"
        by (simp add: in_range_iff)
      have "Entry (localMatrix x (?or, k)) 0 j
          = Get x (?or, k) (colShift x (?or, k) + 0 * colStride x) (rowShift x (?or, k) + j * rowStride x)"
        by (rule local_Get [OF l p, symmetric])
      also have "\<dots> = Get x (?or, k) 0 (Shift k ?ra (gWidth ?g) + j * gWidth ?g)"
        by (simp add: sh rs)
      also have "\<dots> = Get x (0, 0) 0 (Shift k ?ra (gWidth ?g) + j * gWidth ?g)"
        by (rule Get_indep [OF w p z _ rg]) (simp add: h1)
      finally show ?thesis by (simp add: Global_def)
    qed
    show ?thesis
      unfolding LocalNrm2_sq dims by (simp add: ent)
  qed
  have "(\<Sum>k<gWidth ?g. (LocalNrm2 (localMatrix x (?or, k)))\<^sup>2)
      = (\<Sum>k<gWidth ?g. \<Sum>j<LocalLength (width x) (Shift k ?ra (gWidth ?g)) (gWidth ?g).
           (norm (Global x 0 (Shift k ?ra (gWidth ?g) + j * gWidth ?g)))\<^sup>2)"
    by (rule sum.cong) (simp_all add: one)
  also have "\<dots> = (\<Sum>j<width x. (norm (Global x 0 j))\<^sup>2)"
    by (rule sum_shards [OF pos(2) ra])
  finally show ?thesis .
qed

text \<open>
  Claim C9.  For a well-formed \<open>[MC,MR]\<close> vector \<open>x\<close> (global height 1 or global width
  1), \<open>Nrm2\<close> returns the same value on every process, whatever the uninitialised
  variable held, and that value is the Euclidean norm of the global entries of \<open>x\<close>, in
  exact real arithmetic.
\<close>

theorem Nrm2_agrees_and_is_euclidean:
  fixes x :: "'a::real_normed_vector DistMatrix"
  assumes w: "well_formed x" and sch: "colDist x = MC" "rowDist x = MR"
    and vec: "height x = 1 \<or> width x = 1"
  shows "Nrm2 release uninitialised x p = Nrm2 release uninitialised x q
       \<and> Nrm2 release uninitialised x p
           = Inr (sqrt (\<Sum>i<height x. \<Sum>j<width x. (norm (Global x i j))\<^sup>2))"
proof (cases "width x = 1")
  case True
  have "Nrm2 release uninitialised x p'
      = Inr (sqrt (\<Sum>i<height x. \<Sum>j<width x. (norm (Global x i j))\<^sup>2))" for p'
    using True Nrm2_column [OF w sch True]
    by (simp add: Nrm2_def Let_def blas_Nrm2_map AllGather_MCComm_def Broadcast_MRComm_def)
  then show ?thesis by simp
next
  case False
  with vec have h1: "height x = 1" by simp
  have "Nrm2 release uninitialised x p'
      = Inr (sqrt (\<Sum>i<height x. \<Sum>j<width x. (norm (Global x i j))\<^sup>2))" for p'
    using False h1 Nrm2_row [OF w sch h1]
    by (simp add: Nrm2_def Let_def blas_Nrm2_map AllGather_MRComm_def Broadcast_MCComm_def)
  then show ?thesis by simp
qed

text \<open>
  The theorem at the column vector \<open>(3, 0, 0, 4, 0)\<close> on the 2 x 3 grid: every process
  returns 5.
\<close>

theorem Nrm2_agrees_and_is_euclidean_witness:
  "well_formed v_ex \<and> width v_ex = 1
   \<and> Nrm2 False (\<lambda>q. 0) v_ex (0, 0) = Nrm2 False (\<lambda>q. 0) v_ex (1, 2)
   \<and> Nrm2 False (\<lambda>q. 0) v_ex (0, 0)
       = Inr (sqrt (\<Sum>i<height v_ex. \<Sum>j<width v_ex. (norm (Global v_ex i j))\<^sup>2))
   \<and> Nrm2 False (\<lambda>q. 0) v_ex (0, 0) = Inr 5"
proof -
  have w: "well_formed v_ex"
    unfolding v_ex_def
    by (rule well_formed_from_global [OF grid23_pos]) (simp_all add: legal_def Stride_def grid23_def)
  have s: "colDist v_ex = MC" "rowDist v_ex = MR" and w1: "width v_ex = 1"
    by (simp_all add: v_ex_def from_global_def)
  from w1 have v: "height v_ex = 1 \<or> width v_ex = 1" by simp
  note t = Nrm2_agrees_and_is_euclidean [OF w s v, of False "\<lambda>q. 0" "(0, 0)" "(1, 2)"]
  have gl: "Global v_ex i j = (if i = 0 then 3 else if i = 3 then 4 else 0)" for i j
    unfolding Global_def v_ex_def
    by (subst Get_from_global [OF grid23_pos])
       (simp_all add: legal_def Stride_def grid23_def procs_def)
  have hw: "height v_ex = 5" by (simp add: v_ex_def from_global_def)
  have "(\<Sum>i<height v_ex. \<Sum>j<width v_ex. (norm (Global v_ex i j))\<^sup>2) = 25"
    unfolding hw w1 gl by (simp add: lessThan_Suc numeral_eq_Suc)
  moreover have "sqrt 25 = 5" by (rule real_sqrt_unique) simp_all
  ultimately have "sqrt (\<Sum>i<height v_ex. \<Sum>j<width v_ex. (norm (Global v_ex i j))\<^sup>2) = 5"
    by (simp only:)
  moreover from t have "Nrm2 False (\<lambda>q. 0) v_ex (0, 0)
      = Inr (sqrt (\<Sum>i<height v_ex. \<Sum>j<width v_ex. (norm (Global v_ex i j))\<^sup>2))" ..
  ultimately have "Nrm2 False (\<lambda>q. 0) v_ex (0, 0) = Inr 5" by (simp only:)
  with w w1 t show ?thesis by blast
qed

section \<open>The copy constructor rejects its own object\<close>

text \<open>
  Claim C10.  The copy constructor of \<open>DistMatrix[*,MC]\<close>, real or complex, throws the
  logic error "Attempted to construct a [* ,MC] with itself." when its argument is the
  object under construction; for any other argument it assigns the argument to the
  freshly initialised object with the redistributing \<open>operator=\<close>, and the outcome of that
  assignment is the outcome of the construction.
\<close>

theorem copy_constructor_rejects_self:
  "(A = this \<longrightarrow>
      DistMatrix_Star_MC_copy assign st this A
        = Inl (logic_error ''Attempted to construct a [* ,MC] with itself.''))
   \<and> (A \<noteq> this \<longrightarrow>
      DistMatrix_Star_MC_copy assign st this A
        = (case assign (DistMatrixBase_Star_MC (st this) 0 0 False 0 (\<lambda>p. 0) (grid (st A))) (st A) of
             Inl e \<Rightarrow> Inl e
           | Inr B \<Rightarrow> Inr (st(this := B))))"
  by (simp add: DistMatrix_Star_MC_copy_def Let_def split: sum.splits)

text \<open>
  The theorem in a store of two matrices, with the assignment of the storage model:
  construction of the object at address 0 from itself and from the matrix at address 1.
\<close>

theorem copy_constructor_rejects_self_witness:
  "DistMatrix_Star_MC_copy assign_from store_ex 0 0
     = Inl (logic_error ''Attempted to construct a [* ,MC] with itself.'')
   \<and> DistMatrix_Star_MC_copy assign_from store_ex 0 1
     = (case assign_from (DistMatrixBase_Star_MC (store_ex 0) 0 0 False 0 (\<lambda>p. 0) (grid (store_ex 1)))
               (store_ex 1) of
          Inl e \<Rightarrow> Inl e
        | Inr B \<Rightarrow> Inr (store_ex(0 := B)))
   \<and> (\<exists>B. DistMatrix_Star_MC_copy assign_from store_ex 0 1 = Inr (store_ex(0 := B))
          \<and> height B = 5 \<and> width B = 4)"
proof -
  have n: "(1::nat) \<noteq> 0" by simp
  have a: "DistMatrix_Star_MC_copy assign_from store_ex 0 0
     = Inl (logic_error ''Attempted to construct a [* ,MC] with itself.'')"
    using copy_constructor_rejects_self [of 0 0 assign_from store_ex] by simp
  have b: "DistMatrix_Star_MC_copy assign_from store_ex 0 1
     = (case assign_from (DistMatrixBase_Star_MC (store_ex 0) 0 0 False 0 (\<lambda>p. 0) (grid (store_ex 1)))
               (store_ex 1) of
          Inl e \<Rightarrow> Inl e
        | Inr B \<Rightarrow> Inr (store_ex(0 := B)))"
    using copy_constructor_rejects_self [of 1 0 assign_from store_ex] n by blast
  have c: "\<exists>B. DistMatrix_Star_MC_copy assign_from store_ex 0 1 = Inr (store_ex(0 := B))
          \<and> height B = 5 \<and> width B = 4"
  proof -
    let ?T = "DistMatrixBase_Star_MC (store_ex 0) 0 0 False 0 (\<lambda>p. 0) (grid (store_ex 1))"
    have g: "grid ?T = grid (store_ex 1)" by (simp add: DistMatrixBase_Star_MC_def)
    have "DistMatrix_Star_MC_copy assign_from store_ex 0 1
        = Inr (store_ex(0 := Redistribute ?T (store_ex 1)))"
      unfolding b using g by (simp add: assign_from_def)
    moreover have "height (Redistribute ?T (store_ex 1)) = 5"
      "width (Redistribute ?T (store_ex 1)) = 4"
      by (simp_all add: store_ex_def from_global_def M_ex_def)
    ultimately show ?thesis by blast
  qed
  from a b c show ?thesis by blast
qed

end
